theory Spec2Isabelle
  imports Main
begin

section \<open>Word ladder search (ladder.py): the program\<close>

text \<open>
  The script works on letter histograms. A histogram is the row of 26 counts that
  \<open>word_to_histogram\<close> builds with numpy; the counts are whole numbers (numpy stores
  them as floats, exact far beyond any word length), so a row is an \<open>int list\<close>.
  Words are Python strings; a \<open>char\<close> stands for a code point in the range 0..255.
  Exceptions of the script are values of \<open>error\<close>.
\<close>

type_synonym hist = "int list"

datatype error = IndexError | NameError | AttributeError

subsection \<open>Histograms, heuristic, dictionary lookup\<close>

definition isalpha :: "char \<Rightarrow> bool" where
  \<comment> \<open>\<open>str.isalpha\<close> on one code point below 256\<close>
  "isalpha c =
     (let n = (of_char c :: nat)
      in (65 \<le> n \<and> n \<le> 90) \<or> (97 \<le> n \<and> n \<le> 122) \<or> n = 170 \<or> n = 181 \<or> n = 186
         \<or> (192 \<le> n \<and> n \<le> 214) \<or> (216 \<le> n \<and> n \<le> 246) \<or> (248 \<le> n \<and> n \<le> 255))"

definition lower :: "char \<Rightarrow> char" where
  \<comment> \<open>\<open>str.lower\<close> on one code point below 256\<close>
  "lower c =
     (let n = (of_char c :: nat)
      in if (65 \<le> n \<and> n \<le> 90) \<or> (192 \<le> n \<and> n \<le> 214) \<or> (216 \<le> n \<and> n \<le> 222)
         then char_of (n + 32) else c)"

fun word_to_histogram_loop :: "string \<Rightarrow> hist \<Rightarrow> error + hist" where
  "word_to_histogram_loop [] hist = Inr hist"
| "word_to_histogram_loop (letter # rest) hist =
     (if isalpha letter then
        (let tmp = int (of_char letter) - 97
         in if 0 \<le> tmp \<and> tmp < 26
            then word_to_histogram_loop rest (hist[nat tmp := hist ! nat tmp + 1])
            else if - 26 \<le> tmp \<and> tmp < 0
            then word_to_histogram_loop rest (hist[nat (tmp + 26) := hist ! nat (tmp + 26) + 1])
            else Inl IndexError)
      else word_to_histogram_loop rest hist)"

definition word_to_histogram :: "string \<Rightarrow> error + hist" where
  "word_to_histogram wordin = word_to_histogram_loop (map lower wordin) (replicate 26 0)"

definition heuristic :: "hist \<Rightarrow> hist \<Rightarrow> int" where
  "heuristic hist1 hist2 = sum_list (map2 (\<lambda>x y. \<bar>x - y\<bar>) hist1 hist2)"

fun hist_to_index_loop :: "hist list \<Rightarrow> int \<Rightarrow> hist \<Rightarrow> int" where
  "hist_to_index_loop [] ind other_hist = - 1"
| "hist_to_index_loop (hist # rest) ind other_hist =
     (if hist = other_hist then ind else hist_to_index_loop rest (ind + 1) other_hist)"

definition hist_to_index :: "hist list \<Rightarrow> hist \<Rightarrow> int" where
  "hist_to_index wordlist other_hist = hist_to_index_loop wordlist 0 other_hist"

fun load_wordlist :: "string list \<Rightarrow> error + hist list" where
  \<comment> \<open>the loading loop of the module, on the lines already stripped of their line break\<close>
  "load_wordlist [] = Inr []"
| "load_wordlist (line # rest) =
     (case word_to_histogram line of
        Inl e \<Rightarrow> Inl e
      | Inr tmp \<Rightarrow> (case load_wordlist rest of Inl e \<Rightarrow> Inl e | Inr hs \<Rightarrow> Inr (tmp # hs)))"

definition py_index :: "'a list \<Rightarrow> int \<Rightarrow> error + 'a" where
  \<comment> \<open>subscripting a Python list or the rows of a numpy array: indices below zero are
      taken from the end, anything outside raises\<close>
  "py_index xs i =
     (if 0 \<le> i \<and> i < int (length xs) then Inr (xs ! nat i)
      else if - int (length xs) \<le> i \<and> i < 0 then Inr (xs ! nat (int (length xs) + i))
      else Inl IndexError)"

subsection \<open>class Node\<close>

record Node =
  current_hist :: hist
  cost_f :: int
  cost_h :: int
  cost_total :: int
  actions :: "int list"

definition Node_init :: "hist list \<Rightarrow> hist \<Rightarrow> hist \<Rightarrow> Node" where
  \<comment> \<open>\<open>Node(mygraph0)\<close>: the root node of a graph with the given start and target\<close>
  "Node_init wordlist start_hist0 target_hist0 =
     \<lparr>current_hist = start_hist0,
      cost_f = 0,
      cost_h = heuristic start_hist0 target_hist0,
      cost_total = 0 + heuristic start_hist0 target_hist0,
      actions = [hist_to_index wordlist start_hist0]\<rparr>"

definition Node_copy :: "Node \<Rightarrow> Node" where
  \<comment> \<open>\<open>Node(mygraph0, other_Node)\<close>: the copy constructor\<close>
  "Node_copy other_Node =
     \<lparr>current_hist = current_hist other_Node,
      cost_f = cost_f other_Node,
      cost_h = cost_h other_Node,
      cost_total = cost_f other_Node + cost_h other_Node,
      actions = actions other_Node\<rparr>"

definition move_to_neighbour :: "hist \<Rightarrow> Node \<Rightarrow> hist \<Rightarrow> int \<Rightarrow> Node" where
  \<comment> \<open>the first argument is \<open>self.mygraph.target_hist\<close>\<close>
  "move_to_neighbour target_hist0 self new_hist new_index =
     \<lparr>current_hist = new_hist,
      cost_f = cost_f self + 1,
      cost_h = heuristic new_hist target_hist0,
      cost_total = (cost_f self + 1) + heuristic new_hist target_hist0,
      actions = actions self @ [new_index]\<rparr>"

definition is_same_word :: "Node \<Rightarrow> Node \<Rightarrow> bool" where
  "is_same_word self other = (current_hist self = current_hist other)"

fun is_in_list :: "Node \<Rightarrow> Node list \<Rightarrow> Node option" where
  \<comment> \<open>\<open>None\<close> stands for the \<open>False\<close> the method returns when no node matches\<close>
  "is_in_list self [] = None"
| "is_in_list self (nd # mylist) =
     (if is_same_word self nd then Some nd else is_in_list self mylist)"

definition attach :: "Node \<Rightarrow> Node \<Rightarrow> Node option \<times> Node \<times> Node" where
  \<comment> \<open>returns the method's return value (it has no \<open>return\<close>, so Python's \<open>None\<close>),
      the mutated \<open>self\<close> and the mutated \<open>other\<close> (its list is reversed in place)\<close>
  "attach self other =
     (let other' = other\<lparr>actions := rev (actions other)\<rparr>;
          self' = self\<lparr>actions := actions self @ actions other',
                       cost_f := cost_f self + cost_f other',
                       cost_h := 0,
                       cost_total := (cost_f self + cost_f other') + 0\<rparr>
      in (None, self', other'))"

subsection \<open>class SearchGraph\<close>

record SearchGraph =
  start_word :: string
  target_word :: string
  start_hist :: hist
  target_hist :: hist
  frontier :: "Node list"
  closed :: "Node list"
  solution :: "Node option"

definition SearchGraph_init :: "hist list \<Rightarrow> string \<Rightarrow> string \<Rightarrow> error + SearchGraph" where
  "SearchGraph_init wordlist start_word0 target_word0 =
     (case word_to_histogram start_word0 of
        Inl e \<Rightarrow> Inl e
      | Inr sh \<Rightarrow>
         (case word_to_histogram target_word0 of
            Inl e \<Rightarrow> Inl e
          | Inr th \<Rightarrow>
             Inr \<lparr>start_word = start_word0, target_word = target_word0,
                  start_hist = sh, target_hist = th,
                  frontier = [Node_init wordlist sh th],
                  closed = [], solution = None\<rparr>))"

fun list_of_moves_loop ::
  "string list \<Rightarrow> hist list \<Rightarrow> SearchGraph \<Rightarrow> int list \<Rightarrow> error + string list" where
  "list_of_moves_loop words_original wordlist mygraph [] = Inr []"
| "list_of_moves_loop words_original wordlist mygraph (index # rest) =
     (case py_index wordlist index of
        Inl e \<Rightarrow> Inl e
      | Inr row \<Rightarrow>
         (if heuristic row (start_hist mygraph) = 0 then
            (case list_of_moves_loop words_original wordlist mygraph rest of
               Inl e \<Rightarrow> Inl e
             | Inr list_moves \<Rightarrow> Inr (start_word mygraph # list_moves))
          else if heuristic row (target_hist mygraph) = 0 then
            (case list_of_moves_loop words_original wordlist mygraph rest of
               Inl e \<Rightarrow> Inl e
             | Inr list_moves \<Rightarrow> Inr (target_word mygraph # list_moves))
          else
            (case py_index words_original index of
               Inl e \<Rightarrow> Inl e
             | Inr w \<Rightarrow>
                (case list_of_moves_loop words_original wordlist mygraph rest of
                   Inl e \<Rightarrow> Inl e
                 | Inr list_moves \<Rightarrow> Inr (w # list_moves)))))"

definition list_of_moves ::
  "string list \<Rightarrow> hist list \<Rightarrow> SearchGraph \<Rightarrow> Node \<Rightarrow> error + string list" where
  \<comment> \<open>\<open>mygraph\<close> is the graph the node refers to (\<open>self.mygraph\<close>)\<close>
  "list_of_moves words_original wordlist mygraph self =
     list_of_moves_loop words_original wordlist mygraph (actions self)"

definition add_successor :: "SearchGraph \<Rightarrow> Node \<Rightarrow> hist \<Rightarrow> int \<Rightarrow> SearchGraph" where
  \<comment> \<open>the body of the successor loop of \<open>search_step\<close> for one dictionary row\<close>
  "add_successor self test_node next_hist new_index =
     (if heuristic next_hist (current_hist test_node) = 1 then
        (let new_node = move_to_neighbour (target_hist self) (Node_copy test_node) next_hist new_index
         in if is_in_list new_node (closed self) = None then
              (case is_in_list new_node (frontier self) of
                 None \<Rightarrow> self\<lparr>frontier := frontier self @ [new_node]\<rparr>
               | Some tmp \<Rightarrow>
                  (if cost_total tmp > cost_total new_node
                   then (let tmp = new_node in self)  \<comment> \<open>only the local name is rebound\<close>
                   else self))
            else self)
      else self)"

fun search_step_loop :: "hist list \<Rightarrow> int \<Rightarrow> Node \<Rightarrow> SearchGraph \<Rightarrow> SearchGraph" where
  "search_step_loop [] new_index test_node self = self"
| "search_step_loop (row # rest) new_index test_node self =
     search_step_loop rest (new_index + 1) test_node (add_successor self test_node row new_index)"

definition search_step :: "hist list \<Rightarrow> SearchGraph \<Rightarrow> error + (Node option \<times> SearchGraph)" where
  \<comment> \<open>the sort is Python's stable \<open>list.sort\<close> under \<open>__lt__\<close>, that is by \<open>cost_total\<close>;
      the printing of the expanded node is not modelled\<close>
  "search_step wordlist self =
     (case sort_key cost_total (frontier self) of
        [] \<Rightarrow> Inl IndexError
      | test_node # rest \<Rightarrow>
         (if cost_h test_node = 0 then
            Inr (Some test_node, self\<lparr>frontier := rest, solution := Some test_node\<rparr>)
          else
            Inr (None,
                 search_step_loop wordlist 0 test_node
                   (self\<lparr>frontier := rest, closed := closed self @ [test_node]\<rparr>))))"

partial_function (option) SearchGraph_search ::
  "hist list \<Rightarrow> SearchGraph \<Rightarrow> (error + (Node option \<times> SearchGraph)) option" where
  "SearchGraph_search wordlist self =
     (if length (frontier self) > 0 then
        (case search_step wordlist self of
           Inl e \<Rightarrow> Some (Inl e)
         | Inr (nd, self') \<Rightarrow>
            (case nd of
               Some n \<Rightarrow> Some (Inr (Some n, self'\<lparr>solution := Some n\<rparr>))
             | None \<Rightarrow> SearchGraph_search wordlist self'))
      else Some (Inr (None, self\<lparr>solution := None\<rparr>)))"

declare SearchGraph_search.simps [code]

subsection \<open>class BiSearchGraph\<close>

record BiSearchGraph =
  north :: SearchGraph
  south :: SearchGraph
  bi_solution :: "Node option"

definition BiSearchGraph_init :: "hist list \<Rightarrow> string \<Rightarrow> string \<Rightarrow> error + BiSearchGraph" where
  "BiSearchGraph_init wordlist start_word0 target_word0 =
     (case SearchGraph_init wordlist start_word0 target_word0 of
        Inl e \<Rightarrow> Inl e
      | Inr n \<Rightarrow>
         (case SearchGraph_init wordlist target_word0 start_word0 of
            Inl e \<Rightarrow> Inl e
          | Inr s \<Rightarrow> Inr \<lparr>north = n, south = s, bi_solution = None\<rparr>))"

fun intersect_south :: "Node \<Rightarrow> Node list \<Rightarrow> (Node option \<times> Node \<times> Node list) option" where
  \<comment> \<open>the inner loop of \<open>intersect\<close>: \<open>None\<close> when no node of the south frontier matches,
      else the value returned by \<open>attach\<close>, the mutated \<open>nd1\<close> and the south frontier
      with the mutated \<open>nd2\<close>\<close>
  "intersect_south nd1 [] = None"
| "intersect_south nd1 (nd2 # rest) =
     (if is_same_word nd1 nd2 then
        (case attach nd1 nd2 of (r, nd1', nd2') \<Rightarrow> Some (r, nd1', nd2' # rest))
      else
        (case intersect_south nd1 rest of
           None \<Rightarrow> None
         | Some (r, nd1', rest') \<Rightarrow> Some (r, nd1', nd2 # rest')))"

fun intersect_north :: "Node list \<Rightarrow> Node list \<Rightarrow> (Node option \<times> Node list \<times> Node list) option" where
  "intersect_north [] sf = None"
| "intersect_north (nd1 # rest) sf =
     (case intersect_south nd1 sf of
        Some (r, nd1', sf') \<Rightarrow> Some (r, nd1' # rest, sf')
      | None \<Rightarrow>
         (case intersect_north rest sf of
            None \<Rightarrow> None
          | Some (r, rest', sf') \<Rightarrow> Some (r, nd1 # rest', sf')))"

definition intersect :: "BiSearchGraph \<Rightarrow> Node option \<times> BiSearchGraph" where
  "intersect self =
     (case intersect_north (frontier (north self)) (frontier (south self)) of
        None \<Rightarrow> (None, self)
      | Some (r, nf, sf) \<Rightarrow>
         (r, self\<lparr>north := (north self)\<lparr>frontier := nf\<rparr>,
                  south := (south self)\<lparr>frontier := sf\<rparr>\<rparr>))"

definition search_round ::
  "hist list \<Rightarrow> BiSearchGraph \<Rightarrow> (error + (Node option \<times> BiSearchGraph)) + BiSearchGraph" where
  \<comment> \<open>one pass through the body of the loop of \<open>BiSearchGraph.search\<close>: \<open>Inl\<close> when the
      method returns or raises inside the body, \<open>Inr\<close> the state at the end of the body.
      \<open>flip\<close> is defined nowhere, so the assignment after a south solution raises
      \<open>NameError\<close>.\<close>
  "search_round wordlist self =
     (case search_step wordlist (north self) of
        Inl e \<Rightarrow> Inl (Inl e)
      | Inr (nd_north, n') \<Rightarrow>
         (case nd_north of
            Some nd \<Rightarrow> Inl (Inr (Some nd, self\<lparr>north := n', bi_solution := Some nd\<rparr>))
          | None \<Rightarrow>
             (case intersect (self\<lparr>north := n'\<rparr>) of
                (Some nd, self1) \<Rightarrow> Inl (Inr (Some nd, self1\<lparr>bi_solution := Some nd\<rparr>))
              | (None, self1) \<Rightarrow>
                 (case search_step wordlist (south self1) of
                    Inl e \<Rightarrow> Inl (Inl e)
                  | Inr (nd_south, s') \<Rightarrow>
                     (case nd_south of
                        Some nd \<Rightarrow> Inl (Inl NameError)
                      | None \<Rightarrow>
                         (case intersect (self1\<lparr>south := s'\<rparr>) of
                            (Some nd, self2) \<Rightarrow>
                              Inl (Inr (Some nd, self2\<lparr>bi_solution := Some nd\<rparr>))
                          | (None, self2) \<Rightarrow> Inr self2))))))"

partial_function (option) BiSearchGraph_search ::
  "hist list \<Rightarrow> BiSearchGraph \<Rightarrow> (error + (Node option \<times> BiSearchGraph)) option" where
  "BiSearchGraph_search wordlist self =
     (if length (frontier (north self)) > 0 \<and> length (frontier (south self)) > 0 then
        (case search_round wordlist self of
           Inl r \<Rightarrow> Some r
         | Inr self' \<Rightarrow> BiSearchGraph_search wordlist self')
      else Some (Inr (None, self\<lparr>bi_solution := None\<rparr>)))"

declare BiSearchGraph_search.simps [code]

subsection \<open>The script\<close>

definition main :: "string list \<Rightarrow> string \<Rightarrow> string \<Rightarrow> (error + string list) option" where
  \<comment> \<open>the module run with two arguments on a word file with the given lines: the words that
      \<open>display_moves\<close> prints, or the exception that ends the run; \<open>None\<close> when the search
      does not return. A returned node always belongs to the north graph.\<close>
  "main words_original start_word0 target_word0 =
     (case load_wordlist words_original of
        Inl e \<Rightarrow> Some (Inl e)
      | Inr wordlist \<Rightarrow>
         (case BiSearchGraph_init wordlist start_word0 target_word0 of
            Inl e \<Rightarrow> Some (Inl e)
          | Inr A \<Rightarrow>
             (case BiSearchGraph_search wordlist A of
                None \<Rightarrow> None
              | Some (Inl e) \<Rightarrow> Some (Inl e)
              | Some (Inr (None, A')) \<Rightarrow> Some (Inl AttributeError)
              | Some (Inr (Some node, A')) \<Rightarrow>
                  Some (list_of_moves words_original wordlist (north A') node))))"

subsection \<open>Ladder moves\<close>

text \<open>
  A ladder move changes exactly one letter count by one and leaves the others alone.
  \<open>moves_path\<close> holds of a sequence of histograms in which each histogram is one
  ladder move away from the next.
\<close>

definition unit_move :: "hist \<Rightarrow> hist \<Rightarrow> bool" where
  "unit_move a b =
     (length a = length b \<and>
      (\<exists>i<length a. \<bar>a ! i - b ! i\<bar> = 1 \<and> (\<forall>j<length a. j \<noteq> i \<longrightarrow> a ! j = b ! j)))"

fun moves_path :: "hist list \<Rightarrow> bool" where
  "moves_path [] = True"
| "moves_path [h] = True"
| "moves_path (a # b # rest) = (unit_move a b \<and> moves_path (b # rest))"

subsection \<open>Path length\<close>

definition path_ok :: "Node \<Rightarrow> bool" where
  \<comment> \<open>the path has one entry more than the node has cost so far\<close>
  "path_ok n = (int (length (actions n)) = cost_f n + 1)"

subsection \<open>Example runs\<close>

text \<open>
  Histograms of the words of the example dictionaries, and states of runs on them.
  The dictionary \<open>a, ab\<close> with the words \<open>a\<close> and \<open>ab\<close>: \<open>c1_init\<close> is the state
  after construction, \<open>c1_met\<close> the state after the first north step, in which the
  two frontiers hold the same histogram. The dictionary \<open>a, ay, ab\<close> with the same
  two words: \<open>c1_pair\<close> is the state after the first north step.
\<close>

definition hist_a :: hist where
  "hist_a = [1, 0, 0, 0, 0, 0, 0, 0, 0, 0, 0, 0, 0, 0, 0, 0, 0, 0, 0, 0, 0, 0, 0, 0, 0, 0]"

definition hist_ab :: hist where
  "hist_ab = [1, 1, 0, 0, 0, 0, 0, 0, 0, 0, 0, 0, 0, 0, 0, 0, 0, 0, 0, 0, 0, 0, 0, 0, 0, 0]"

definition hist_ay :: hist where
  "hist_ay = [1, 0, 0, 0, 0, 0, 0, 0, 0, 0, 0, 0, 0, 0, 0, 0, 0, 0, 0, 0, 0, 0, 0, 0, 1, 0]"

definition hist_cat :: hist where
  "hist_cat = [1, 0, 1, 0, 0, 0, 0, 0, 0, 0, 0, 0, 0, 0, 0, 0, 0, 0, 0, 1, 0, 0, 0, 0, 0, 0]"

definition hist_cats :: hist where
  "hist_cats = [1, 0, 1, 0, 0, 0, 0, 0, 0, 0, 0, 0, 0, 0, 0, 0, 0, 0, 1, 1, 0, 0, 0, 0, 0, 0]"

definition hist_ca :: hist where
  "hist_ca = [1, 0, 1, 0, 0, 0, 0, 0, 0, 0, 0, 0, 0, 0, 0, 0, 0, 0, 0, 0, 0, 0, 0, 0, 0, 0]"

definition hist_tea :: hist where
  "hist_tea = [1, 0, 0, 0, 1, 0, 0, 0, 0, 0, 0, 0, 0, 0, 0, 0, 0, 0, 0, 1, 0, 0, 0, 0, 0, 0]"

definition hist_az :: hist where
  "hist_az = [1, 0, 0, 0, 0, 0, 0, 0, 0, 0, 0, 0, 0, 0, 0, 0, 0, 0, 0, 0, 0, 0, 0, 0, 0, 1]"

definition hist_aw :: hist where
  "hist_aw = [1, 0, 0, 0, 0, 0, 0, 0, 0, 0, 0, 0, 0, 0, 0, 0, 0, 0, 0, 0, 0, 0, 1, 0, 0, 0]"

definition hist_av :: hist where
  "hist_av = [1, 0, 0, 0, 0, 0, 0, 0, 0, 0, 0, 0, 0, 0, 0, 0, 0, 0, 0, 0, 0, 1, 0, 0, 0, 0]"

definition hist_ax :: hist where
  "hist_ax = [1, 0, 0, 0, 0, 0, 0, 0, 0, 0, 0, 0, 0, 0, 0, 0, 0, 0, 0, 0, 0, 0, 0, 1, 0, 0]"

definition hist_abx :: hist where
  "hist_abx = [1, 1, 0, 0, 0, 0, 0, 0, 0, 0, 0, 0, 0, 0, 0, 0, 0, 0, 0, 0, 0, 0, 0, 1, 0, 0]"

definition hist_abcx :: hist where
  "hist_abcx = [1, 1, 1, 0, 0, 0, 0, 0, 0, 0, 0, 0, 0, 0, 0, 0, 0, 0, 0, 0, 0, 0, 0, 1, 0, 0]"

definition hist_abc :: hist where
  "hist_abc = [1, 1, 1, 0, 0, 0, 0, 0, 0, 0, 0, 0, 0, 0, 0, 0, 0, 0, 0, 0, 0, 0, 0, 0, 0, 0]"

definition hist_ac :: hist where
  "hist_ac = [1, 0, 1, 0, 0, 0, 0, 0, 0, 0, 0, 0, 0, 0, 0, 0, 0, 0, 0, 0, 0, 0, 0, 0, 0, 0]"

definition hist_abcd :: hist where
  "hist_abcd = [1, 1, 1, 1, 0, 0, 0, 0, 0, 0, 0, 0, 0, 0, 0, 0, 0, 0, 0, 0, 0, 0, 0, 0, 0, 0]"

definition hist_abcde :: hist where
  "hist_abcde = [1, 1, 1, 1, 1, 0, 0, 0, 0, 0, 0, 0, 0, 0, 0, 0, 0, 0, 0, 0, 0, 0, 0, 0, 0, 0]"

definition hist_x :: hist where
  "hist_x = [0, 0, 0, 0, 0, 0, 0, 0, 0, 0, 0, 0, 0, 0, 0, 0, 0, 0, 0, 0, 0, 0, 0, 1, 0, 0]"

definition hist_xc :: hist where
  "hist_xc = [0, 0, 1, 0, 0, 0, 0, 0, 0, 0, 0, 0, 0, 0, 0, 0, 0, 0, 0, 0, 0, 0, 0, 1, 0, 0]"

definition hist_xz :: hist where
  "hist_xz = [0, 0, 0, 0, 0, 0, 0, 0, 0, 0, 0, 0, 0, 0, 0, 0, 0, 0, 0, 0, 0, 0, 0, 1, 0, 1]"

definition hist_xbc :: hist where
  "hist_xbc = [0, 1, 1, 0, 0, 0, 0, 0, 0, 0, 0, 0, 0, 0, 0, 0, 0, 0, 0, 0, 0, 0, 0, 1, 0, 0]"

definition hist_xabc :: hist where
  "hist_xabc = [1, 1, 1, 0, 0, 0, 0, 0, 0, 0, 0, 0, 0, 0, 0, 0, 0, 0, 0, 0, 0, 0, 0, 1, 0, 0]"

definition hist_xabcz :: hist where
  "hist_xabcz = [1, 1, 1, 0, 0, 0, 0, 0, 0, 0, 0, 0, 0, 0, 0, 0, 0, 0, 0, 0, 0, 0, 0, 1, 0, 1]"

definition hist_xza :: hist where
  "hist_xza = [1, 0, 0, 0, 0, 0, 0, 0, 0, 0, 0, 0, 0, 0, 0, 0, 0, 0, 0, 0, 0, 0, 0, 1, 0, 1]"

definition hist_xzab :: hist where
  "hist_xzab = [1, 1, 0, 0, 0, 0, 0, 0, 0, 0, 0, 0, 0, 0, 0, 0, 0, 0, 0, 0, 0, 0, 0, 1, 0, 1]"

definition hist_xabcde :: hist where
  "hist_xabcde = [1, 1, 1, 1, 1, 0, 0, 0, 0, 0, 0, 0, 0, 0, 0, 0, 0, 0, 0, 0, 0, 0, 0, 1, 0, 0]"


definition c1_init :: BiSearchGraph where
  "c1_init =
     \<lparr>north = \<lparr>start_word = ''a'', target_word = ''ab'', start_hist = hist_a, target_hist = hist_ab,
                frontier = [\<lparr>current_hist = hist_a, cost_f = 0, cost_h = 1, cost_total = 1, actions = [0]\<rparr>],
                closed = [], solution = None\<rparr>,
      south = \<lparr>start_word = ''ab'', target_word = ''a'', start_hist = hist_ab, target_hist = hist_a,
                frontier = [\<lparr>current_hist = hist_ab, cost_f = 0, cost_h = 1, cost_total = 1, actions = [1]\<rparr>],
                closed = [], solution = None\<rparr>,
      bi_solution = None\<rparr>"

definition c1_met :: BiSearchGraph where
  "c1_met =
     c1_init\<lparr>north := (north c1_init)
       \<lparr>frontier := [\<lparr>current_hist = hist_ab, cost_f = 1, cost_h = 0, cost_total = 1, actions = [0, 1]\<rparr>],
        closed := [\<lparr>current_hist = hist_a, cost_f = 0, cost_h = 1, cost_total = 1, actions = [0]\<rparr>]\<rparr>\<rparr>"

definition c1_pair :: BiSearchGraph where
  "c1_pair =
     \<lparr>north = \<lparr>start_word = ''a'', target_word = ''ab'', start_hist = hist_a, target_hist = hist_ab,
                frontier = [\<lparr>current_hist = hist_ay, cost_f = 1, cost_h = 2, cost_total = 3, actions = [0, 1]\<rparr>,
                            \<lparr>current_hist = hist_ab, cost_f = 1, cost_h = 0, cost_total = 1, actions = [0, 2]\<rparr>],
                closed = [\<lparr>current_hist = hist_a, cost_f = 0, cost_h = 1, cost_total = 1, actions = [0]\<rparr>],
                solution = None\<rparr>,
      south = \<lparr>start_word = ''ab'', target_word = ''a'', start_hist = hist_ab, target_hist = hist_a,
                frontier = [\<lparr>current_hist = hist_ab, cost_f = 0, cost_h = 1, cost_total = 1, actions = [2]\<rparr>],
                closed = [], solution = None\<rparr>,
      bi_solution = None\<rparr>"

definition c8_node :: Node where
  "c8_node = \<lparr>current_hist = hist_ab, cost_f = 1, cost_h = 0, cost_total = 1, actions = [0, 1, 1]\<rparr>"

text \<open>
  The dictionary \<open>cat, cats\<close> with start \<open>ca\<close>, a word that has no row, and target
  \<open>cat\<close>: \<open>c4_init\<close> is the state after construction. The dictionary \<open>tea\<close> with
  start \<open>eat\<close> and target \<open>ate\<close>, two anagrams of its only word: \<open>c10_init\<close> is the
  state after construction.
\<close>

definition c4_init :: BiSearchGraph where
  "c4_init =
     \<lparr>north = \<lparr>start_word = ''ca'', target_word = ''cat'', start_hist = hist_ca, target_hist = hist_cat,
                frontier = [\<lparr>current_hist = hist_ca, cost_f = 0, cost_h = 1, cost_total = 1, actions = [- 1]\<rparr>],
                closed = [], solution = None\<rparr>,
      south = \<lparr>start_word = ''cat'', target_word = ''ca'', start_hist = hist_cat, target_hist = hist_ca,
                frontier = [\<lparr>current_hist = hist_cat, cost_f = 0, cost_h = 1, cost_total = 1, actions = [0]\<rparr>],
                closed = [], solution = None\<rparr>,
      bi_solution = None\<rparr>"

definition c10_init :: BiSearchGraph where
  "c10_init =
     \<lparr>north = \<lparr>start_word = ''eat'', target_word = ''ate'', start_hist = hist_tea, target_hist = hist_tea,
                frontier = [\<lparr>current_hist = hist_tea, cost_f = 0, cost_h = 0, cost_total = 0, actions = [0]\<rparr>],
                closed = [], solution = None\<rparr>,
      south = \<lparr>start_word = ''ate'', target_word = ''eat'', start_hist = hist_tea, target_hist = hist_tea,
                frontier = [\<lparr>current_hist = hist_tea, cost_f = 0, cost_h = 0, cost_total = 0, actions = [0]\<rparr>],
                closed = [], solution = None\<rparr>,
      bi_solution = None\<rparr>"

text \<open>
  The dictionary \<open>cat, cats\<close> with start \<open>act\<close> and target \<open>cast\<close>, anagrams of its two
  words: \<open>c9_graph\<close> is the north graph when the search returns and \<open>c9_node\<close> the
  node it returns.
\<close>

definition c9_node :: Node where
  "c9_node = \<lparr>current_hist = hist_cats, cost_f = 1, cost_h = 0, cost_total = 1, actions = [0, 1, 1]\<rparr>"

definition c9_graph :: SearchGraph where
  "c9_graph =
     \<lparr>start_word = ''act'', target_word = ''cast'', start_hist = hist_cat, target_hist = hist_cats,
      frontier = [],
      closed = [\<lparr>current_hist = hist_cat, cost_f = 0, cost_h = 1, cost_total = 1, actions = [0]\<rparr>],
      solution = Some c9_node\<rparr>"

subsection \<open>Passes of the search loops\<close>

fun search_steps ::
  "nat \<Rightarrow> hist list \<Rightarrow> SearchGraph \<Rightarrow> (error + (Node option \<times> SearchGraph)) + SearchGraph" where
  \<comment> \<open>\<open>SearchGraph.search\<close> after the given number of passes through its loop: \<open>Inr\<close> the
      state when the loop is still running, \<open>Inl\<close> what the method has returned or raised\<close>
  "search_steps 0 wordlist self = Inr self"
| "search_steps (Suc k) wordlist self =
     (if length (frontier self) > 0 then
        (case search_step wordlist self of
           Inl e \<Rightarrow> Inl (Inl e)
         | Inr (nd, self') \<Rightarrow>
            (case nd of
               Some n \<Rightarrow> Inl (Inr (Some n, self'\<lparr>solution := Some n\<rparr>))
             | None \<Rightarrow> search_steps k wordlist self'))
      else Inl (Inr (None, self\<lparr>solution := None\<rparr>)))"

fun search_rounds ::
  "nat \<Rightarrow> hist list \<Rightarrow> BiSearchGraph \<Rightarrow> (error + (Node option \<times> BiSearchGraph)) + BiSearchGraph" where
  \<comment> \<open>\<open>BiSearchGraph.search\<close> after the given number of passes through its loop\<close>
  "search_rounds 0 wordlist self = Inr self"
| "search_rounds (Suc k) wordlist self =
     (if length (frontier (north self)) > 0 \<and> length (frontier (south self)) > 0 then
        (case search_round wordlist self of
           Inl r \<Rightarrow> Inl r
         | Inr self' \<Rightarrow> search_rounds k wordlist self')
      else Inl (Inr (None, self\<lparr>bi_solution := None\<rparr>)))"

text \<open>
  Three larger dictionaries. \<open>south_words\<close> with start \<open>a\<close> and target \<open>abc\<close>, both in
  the dictionary. \<open>tie_words\<close> with start \<open>a\<close> and target \<open>abcde\<close>. \<open>key_words\<close> for
  the one-directional search from \<open>x\<close> to \<open>xabcde\<close>.
\<close>

definition south_words :: "string list" where
  "south_words = [''a'', ''ay'', ''az'', ''aw'', ''av'', ''ax'', ''abx'', ''abcx'', ''abc'']"

definition south_wordlist :: "hist list" where
  "south_wordlist =
     [hist_a, hist_ay, hist_az, hist_aw, hist_av, hist_ax, hist_abx, hist_abcx, hist_abc]"

definition south_init :: BiSearchGraph where
  "south_init =
     \<lparr>north = \<lparr>start_word = ''a'', target_word = ''abc'', start_hist = hist_a, target_hist = hist_abc,
                frontier = [\<lparr>current_hist = hist_a, cost_f = 0, cost_h = 2, cost_total = 2, actions = [0]\<rparr>],
                closed = [], solution = None\<rparr>,
      south = \<lparr>start_word = ''abc'', target_word = ''a'', start_hist = hist_abc, target_hist = hist_a,
                frontier = [\<lparr>current_hist = hist_abc, cost_f = 0, cost_h = 2, cost_total = 2, actions = [8]\<rparr>],
                closed = [], solution = None\<rparr>,
      bi_solution = None\<rparr>"

definition tie_words :: "string list" where
  "tie_words = [''a'', ''ay'', ''ab'', ''ac'', ''abc'', ''abcd'', ''abcde'']"

definition tie_wordlist :: "hist list" where
  "tie_wordlist = [hist_a, hist_ay, hist_ab, hist_ac, hist_abc, hist_abcd, hist_abcde]"

definition tie_init :: BiSearchGraph where
  "tie_init =
     \<lparr>north = \<lparr>start_word = ''a'', target_word = ''abcde'', start_hist = hist_a, target_hist = hist_abcde,
                frontier = [\<lparr>current_hist = hist_a, cost_f = 0, cost_h = 4, cost_total = 4, actions = [0]\<rparr>],
                closed = [], solution = None\<rparr>,
      south = \<lparr>start_word = ''abcde'', target_word = ''a'', start_hist = hist_abcde, target_hist = hist_a,
                frontier = [\<lparr>current_hist = hist_abcde, cost_f = 0, cost_h = 4, cost_total = 4, actions = [6]\<rparr>],
                closed = [], solution = None\<rparr>,
      bi_solution = None\<rparr>"

definition key_words :: "string list" where
  "key_words = [''x'', ''xc'', ''xz'', ''xbc'', ''xabc'', ''xabcz'', ''xza'', ''xzab'', ''xabcde'']"

definition key_wordlist :: "hist list" where
  "key_wordlist =
     [hist_x, hist_xc, hist_xz, hist_xbc, hist_xabc, hist_xabcz, hist_xza, hist_xzab, hist_xabcde]"

definition key_init :: SearchGraph where
  "key_init =
     \<lparr>start_word = ''x'', target_word = ''xabcde'', start_hist = hist_x, target_hist = hist_xabcde,
      frontier = [\<lparr>current_hist = hist_x, cost_f = 0, cost_h = 5, cost_total = 5, actions = [0]\<rparr>],
      closed = [], solution = None\<rparr>"

definition key_popped :: Node where
  \<comment> \<open>the node that the seventh step of the search from \<open>key_init\<close> expands\<close>
  "key_popped = \<lparr>current_hist = hist_xza, cost_f = 2, cost_h = 5, cost_total = 7, actions = [0, 2, 6]\<rparr>"

subsection \<open>Paths that begin at the root\<close>

definition rooted :: "int \<Rightarrow> Node \<Rightarrow> bool" where
  \<comment> \<open>the path of the node is not empty and begins with the given index\<close>
  "rooted r n = (actions n \<noteq> [] \<and> hd (actions n) = r)"


section \<open>The heuristic\<close>

lemma heuristic_Nil [simp]: "heuristic [] b = 0" "heuristic a [] = 0"
  by (simp_all add: heuristic_def)

lemma heuristic_Cons [simp]: "heuristic (x # a) (y # b) = \<bar>x - y\<bar> + heuristic a b"
  by (simp add: heuristic_def)

lemma heuristic_nonneg: "0 \<le> heuristic a b"
  by (auto simp: heuristic_def intro!: sum_list_nonneg)

lemma heuristic_sym: "heuristic a b = heuristic b a"
proof (induction a arbitrary: b)
  case Nil then show ?case by simp
next
  case (Cons x a) then show ?case by (cases b) (simp_all add: abs_minus_commute)
qed

lemma heuristic_triangle:
  "length a = length b \<Longrightarrow> heuristic a c \<le> heuristic a b + heuristic b c"
proof (induction a arbitrary: b c)
  case Nil then show ?case by simp
next
  case (Cons x a)
  then obtain y b' where b: "b = y # b'" "length a = length b'" by (cases b) auto
  show ?case
  proof (cases c)
    case Nil then show ?thesis using b heuristic_nonneg[of a b'] by simp
  next
    case (Cons z c')
    have "heuristic a c' \<le> heuristic a b' + heuristic b' c'" using Cons.IH[OF b(2)] .
    then show ?thesis using b Cons by simp
  qed
qed

lemma heuristic_sum:
  "length a = length b \<Longrightarrow> heuristic a b = (\<Sum>i<length a. \<bar>a ! i - b ! i\<bar>)"
proof (induction a b rule: list_induct2)
  case Nil then show ?case by simp
next
  case (Cons x xs y ys)
  then show ?case by (simp del: sum.lessThan_Suc add: sum.lessThan_Suc_shift)
qed

text \<open>The successor test of \<open>search_step\<close>, distance exactly 1, holds of every ladder move.\<close>

lemma unit_move_heuristic:
  assumes "unit_move a b" shows "heuristic a b = 1"
proof -
  from assms obtain i where len: "length a = length b" and i: "i < length a"
    and d: "\<bar>a ! i - b ! i\<bar> = 1" and rest: "\<forall>j<length a. j \<noteq> i \<longrightarrow> a ! j = b ! j"
    by (auto simp: unit_move_def)
  have "heuristic a b = (\<Sum>j<length a. \<bar>a ! j - b ! j\<bar>)" using len by (rule heuristic_sum)
  also have "\<dots> = (\<Sum>j<length a. if j = i then 1 else 0)"
    using d rest by (intro sum.cong) auto
  also have "\<dots> = 1" using i by simp
  finally show ?thesis .
qed

lemma heuristic_zero_iff:
  "length a = length b \<Longrightarrow> heuristic a b = 0 \<longleftrightarrow> a = b"
proof (induction a b rule: list_induct2)
  case Nil then show ?case by simp
next
  case (Cons x xs y ys)
  have "0 \<le> heuristic xs ys" by (rule heuristic_nonneg)
  then show ?case using Cons by auto
qed

lemma moves_path_bound:
  "moves_path hs \<Longrightarrow> hs \<noteq> [] \<Longrightarrow> heuristic (hd hs) (last hs) \<le> int (length hs) - 1"
proof (induction hs rule: moves_path.induct)
  case 1 then show ?case by simp
next
  case (2 h)
  have "heuristic h h = 0" by (induction h) auto
  then show ?case by simp
next
  case (3 a b rest)
  then have um: "unit_move a b"
    and ih: "heuristic b (last (b # rest)) \<le> int (length (b # rest)) - 1"
    by auto
  have "heuristic a (last (b # rest)) \<le> heuristic a b + heuristic b (last (b # rest))"
    using um by (intro heuristic_triangle) (simp add: unit_move_def)
  with ih unit_move_heuristic[OF um] show ?case by simp
qed

lemma unit_move_consistent:
  assumes "unit_move a b" shows "\<bar>heuristic a t - heuristic b t\<bar> \<le> 1"
proof -
  have len: "length a = length b" using assms by (simp add: unit_move_def)
  have ab: "heuristic a b = 1" using assms by (rule unit_move_heuristic)
  have "heuristic a t \<le> heuristic a b + heuristic b t" using len by (rule heuristic_triangle)
  moreover have "heuristic b t \<le> heuristic b a + heuristic a t"
    using len by (intro heuristic_triangle) simp
  ultimately show ?thesis using ab heuristic_sym[of b a] by simp
qed

text \<open>
  Claim C5. The heuristic is admissible and consistent. A sequence \<open>hs\<close> of histograms
  joined by ladder moves makes \<open>length hs - 1\<close> moves from its first to its last
  histogram, and the heuristic between these two is at most that number; and for two
  histograms one ladder move apart, the heuristic values towards any target differ by at
  most 1.
\<close>

theorem heuristic_admissible_consistent:
  "(moves_path hs \<and> hs \<noteq> [] \<longrightarrow> heuristic (hd hs) (last hs) \<le> int (length hs) - 1)
   \<and> (unit_move a b \<longrightarrow> \<bar>heuristic a target - heuristic b target\<bar> \<le> 1)"
  using moves_path_bound[of hs] unit_move_consistent[of a b target] by blast

theorem heuristic_admissible_consistent_witness:
  "moves_path [[1, 0, 0], [1, 1, 0], [1, 1, 1]]
   \<and> heuristic [1, 0, 0] [1, 1, 1] \<le> 2
   \<and> unit_move [1, 0, 0] [1, 1, 0]
   \<and> \<bar>heuristic [1, 0, 0] [0, 0, 2] - heuristic [1, 1, 0] [0, 0, 2]\<bar> \<le> 1"
proof -
  have u1: "unit_move [1, 0, 0] [1, 1, 0]"
    unfolding unit_move_def by (simp add: exI[of _ 1] nth_Cons')
  have u2: "unit_move [1, 1, 0] [1, 1, 1]"
    unfolding unit_move_def by (simp add: exI[of _ 2] nth_Cons')
  have p: "moves_path [[1, 0, 0], [1, 1, 0], [1, 1, 1]]" using u1 u2 by simp
  show ?thesis
    using heuristic_admissible_consistent[of "[[1, 0, 0], [1, 1, 0], [1, 1, 1]]"
            "[1, 0, 0]" "[1, 1, 0]" "[0, 0, 2]"] p u1
    by simp
qed

section \<open>Dictionary lookup\<close>

lemma hist_to_index_loop_found:
  "h \<in> set wl \<Longrightarrow>
   \<exists>i<length wl. hist_to_index_loop wl k h = k + int i \<and> wl ! i = h \<and> (\<forall>j<i. wl ! j \<noteq> h)"
proof (induction wl arbitrary: k)
  case Nil
  then show ?case by simp
next
  case (Cons x wl)
  show ?case
  proof (cases "x = h")
    case True
    then show ?thesis by (intro exI[of _ 0]) simp
  next
    case False
    with Cons.prems have "h \<in> set wl" by simp
    from Cons.IH[OF this, of "k + 1"] obtain i where
      i: "i < length wl" "hist_to_index_loop wl (k + 1) h = k + 1 + int i" "wl ! i = h"
         "\<forall>j<i. wl ! j \<noteq> h" by blast
    have "\<forall>j<Suc i. (x # wl) ! j \<noteq> h"
      using i(4) False by (auto simp: less_Suc_eq_0_disj)
    with i False show ?thesis by (intro exI[of _ "Suc i"]) simp
  qed
qed

lemma hist_to_index_loop_missing:
  "h \<notin> set wl \<Longrightarrow> hist_to_index_loop wl k h = - 1"
  by (induction wl arbitrary: k) auto

text \<open>
  Claim C6. \<open>hist_to_index\<close> is a function of the dictionary and the histogram. When some
  dictionary row equals the histogram it returns the lowest index of such a row, also
  when several rows (anagrams) share the histogram; when no row equals it the result is
  the not-found value \<open>-1\<close>.
\<close>

theorem hist_to_index_first_match:
  "(h \<in> set wordlist \<longrightarrow>
      (\<exists>i<length wordlist. hist_to_index wordlist h = int i \<and> wordlist ! i = h
          \<and> (\<forall>j<i. wordlist ! j \<noteq> h)))
   \<and> (h \<notin> set wordlist \<longrightarrow> hist_to_index wordlist h = - 1)"
  using hist_to_index_loop_found[of h wordlist 0] hist_to_index_loop_missing[of h wordlist 0]
  by (auto simp: hist_to_index_def)

theorem hist_to_index_first_match_witness:
  "hist_to_index [[0, 1], [1, 0], [2, 0], [1, 0]] [1, 0] = 1
   \<and> hist_to_index [[0, 1], [1, 0], [2, 0], [1, 0]] [3, 0] = - 1"
  using hist_to_index_first_match[of "[1, 0]" "[[0, 1], [1, 0], [2, 0], [1, 0]]"]
        hist_to_index_first_match[of "[3, 0]" "[[0, 1], [1, 0], [2, 0], [1, 0]]"]
  by (simp add: hist_to_index_def)

section \<open>Evaluation of example runs\<close>

text \<open>
  Runs on concrete dictionaries are evaluated with the histograms kept as constants:
  the distances between them are tabulated once, and two histograms at a distance
  other than 0 are different.
\<close>

lemma hist_neq: "heuristic a b \<noteq> 0 \<Longrightarrow> (a = b) = False"
  using heuristic_zero_iff[of a b] by (cases "a = b") (auto simp: heuristic_def)

lemmas search_defs = BiSearchGraph_init_def SearchGraph_init_def Node_init_def
  hist_to_index_def search_round_def search_step_def add_successor_def move_to_neighbour_def
  Node_copy_def is_same_word_def intersect_def attach_def list_of_moves_def py_index_def

lemma ex_a_heuristic [simp]:
  "heuristic hist_a hist_a = 0"
  "heuristic hist_a hist_ab = 1"
  "heuristic hist_a hist_ay = 1"
  "heuristic hist_ab hist_a = 1"
  "heuristic hist_ab hist_ab = 0"
  "heuristic hist_ab hist_ay = 2"
  "heuristic hist_ay hist_a = 1"
  "heuristic hist_ay hist_ab = 2"
  "heuristic hist_ay hist_ay = 0"
  by (simp_all add: hist_a_def hist_ab_def hist_ay_def)

lemma ex_cat_heuristic [simp]:
  "heuristic hist_cat hist_cat = 0"
  "heuristic hist_cat hist_cats = 1"
  "heuristic hist_cat hist_ca = 1"
  "heuristic hist_cats hist_cat = 1"
  "heuristic hist_cats hist_cats = 0"
  "heuristic hist_cats hist_ca = 2"
  "heuristic hist_ca hist_cat = 1"
  "heuristic hist_ca hist_cats = 2"
  "heuristic hist_ca hist_ca = 0"
  by (simp_all add: hist_cat_def hist_cats_def hist_ca_def)

lemma ex_tea_heuristic [simp]:
  "heuristic hist_tea hist_tea = 0"
  by (simp_all add: hist_tea_def)

lemma ex_south_heuristic [simp]:
  "heuristic hist_a hist_a = 0"
  "heuristic hist_a hist_ay = 1"
  "heuristic hist_a hist_az = 1"
  "heuristic hist_a hist_aw = 1"
  "heuristic hist_a hist_av = 1"
  "heuristic hist_a hist_ax = 1"
  "heuristic hist_a hist_abx = 2"
  "heuristic hist_a hist_abcx = 3"
  "heuristic hist_a hist_abc = 2"
  "heuristic hist_ay hist_a = 1"
  "heuristic hist_ay hist_ay = 0"
  "heuristic hist_ay hist_az = 2"
  "heuristic hist_ay hist_aw = 2"
  "heuristic hist_ay hist_av = 2"
  "heuristic hist_ay hist_ax = 2"
  "heuristic hist_ay hist_abx = 3"
  "heuristic hist_ay hist_abcx = 4"
  "heuristic hist_ay hist_abc = 3"
  "heuristic hist_az hist_a = 1"
  "heuristic hist_az hist_ay = 2"
  "heuristic hist_az hist_az = 0"
  "heuristic hist_az hist_aw = 2"
  "heuristic hist_az hist_av = 2"
  "heuristic hist_az hist_ax = 2"
  "heuristic hist_az hist_abx = 3"
  "heuristic hist_az hist_abcx = 4"
  "heuristic hist_az hist_abc = 3"
  "heuristic hist_aw hist_a = 1"
  "heuristic hist_aw hist_ay = 2"
  "heuristic hist_aw hist_az = 2"
  "heuristic hist_aw hist_aw = 0"
  "heuristic hist_aw hist_av = 2"
  "heuristic hist_aw hist_ax = 2"
  "heuristic hist_aw hist_abx = 3"
  "heuristic hist_aw hist_abcx = 4"
  "heuristic hist_aw hist_abc = 3"
  "heuristic hist_av hist_a = 1"
  "heuristic hist_av hist_ay = 2"
  "heuristic hist_av hist_az = 2"
  "heuristic hist_av hist_aw = 2"
  "heuristic hist_av hist_av = 0"
  "heuristic hist_av hist_ax = 2"
  "heuristic hist_av hist_abx = 3"
  "heuristic hist_av hist_abcx = 4"
  "heuristic hist_av hist_abc = 3"
  "heuristic hist_ax hist_a = 1"
  "heuristic hist_ax hist_ay = 2"
  "heuristic hist_ax hist_az = 2"
  "heuristic hist_ax hist_aw = 2"
  "heuristic hist_ax hist_av = 2"
  "heuristic hist_ax hist_ax = 0"
  "heuristic hist_ax hist_abx = 1"
  "heuristic hist_ax hist_abcx = 2"
  "heuristic hist_ax hist_abc = 3"
  "heuristic hist_abx hist_a = 2"
  "heuristic hist_abx hist_ay = 3"
  "heuristic hist_abx hist_az = 3"
  "heuristic hist_abx hist_aw = 3"
  "heuristic hist_abx hist_av = 3"
  "heuristic hist_abx hist_ax = 1"
  "heuristic hist_abx hist_abx = 0"
  "heuristic hist_abx hist_abcx = 1"
  "heuristic hist_abx hist_abc = 2"
  "heuristic hist_abcx hist_a = 3"
  "heuristic hist_abcx hist_ay = 4"
  "heuristic hist_abcx hist_az = 4"
  "heuristic hist_abcx hist_aw = 4"
  "heuristic hist_abcx hist_av = 4"
  "heuristic hist_abcx hist_ax = 2"
  "heuristic hist_abcx hist_abx = 1"
  "heuristic hist_abcx hist_abcx = 0"
  "heuristic hist_abcx hist_abc = 1"
  "heuristic hist_abc hist_a = 2"
  "heuristic hist_abc hist_ay = 3"
  "heuristic hist_abc hist_az = 3"
  "heuristic hist_abc hist_aw = 3"
  "heuristic hist_abc hist_av = 3"
  "heuristic hist_abc hist_ax = 3"
  "heuristic hist_abc hist_abx = 2"
  "heuristic hist_abc hist_abcx = 1"
  "heuristic hist_abc hist_abc = 0"
  by (simp_all add: hist_a_def hist_ay_def hist_az_def hist_aw_def hist_av_def hist_ax_def hist_abx_def hist_abcx_def hist_abc_def)

lemma ex_tie_heuristic [simp]:
  "heuristic hist_a hist_a = 0"
  "heuristic hist_a hist_ay = 1"
  "heuristic hist_a hist_ab = 1"
  "heuristic hist_a hist_ac = 1"
  "heuristic hist_a hist_abc = 2"
  "heuristic hist_a hist_abcd = 3"
  "heuristic hist_a hist_abcde = 4"
  "heuristic hist_ay hist_a = 1"
  "heuristic hist_ay hist_ay = 0"
  "heuristic hist_ay hist_ab = 2"
  "heuristic hist_ay hist_ac = 2"
  "heuristic hist_ay hist_abc = 3"
  "heuristic hist_ay hist_abcd = 4"
  "heuristic hist_ay hist_abcde = 5"
  "heuristic hist_ab hist_a = 1"
  "heuristic hist_ab hist_ay = 2"
  "heuristic hist_ab hist_ab = 0"
  "heuristic hist_ab hist_ac = 2"
  "heuristic hist_ab hist_abc = 1"
  "heuristic hist_ab hist_abcd = 2"
  "heuristic hist_ab hist_abcde = 3"
  "heuristic hist_ac hist_a = 1"
  "heuristic hist_ac hist_ay = 2"
  "heuristic hist_ac hist_ab = 2"
  "heuristic hist_ac hist_ac = 0"
  "heuristic hist_ac hist_abc = 1"
  "heuristic hist_ac hist_abcd = 2"
  "heuristic hist_ac hist_abcde = 3"
  "heuristic hist_abc hist_a = 2"
  "heuristic hist_abc hist_ay = 3"
  "heuristic hist_abc hist_ab = 1"
  "heuristic hist_abc hist_ac = 1"
  "heuristic hist_abc hist_abc = 0"
  "heuristic hist_abc hist_abcd = 1"
  "heuristic hist_abc hist_abcde = 2"
  "heuristic hist_abcd hist_a = 3"
  "heuristic hist_abcd hist_ay = 4"
  "heuristic hist_abcd hist_ab = 2"
  "heuristic hist_abcd hist_ac = 2"
  "heuristic hist_abcd hist_abc = 1"
  "heuristic hist_abcd hist_abcd = 0"
  "heuristic hist_abcd hist_abcde = 1"
  "heuristic hist_abcde hist_a = 4"
  "heuristic hist_abcde hist_ay = 5"
  "heuristic hist_abcde hist_ab = 3"
  "heuristic hist_abcde hist_ac = 3"
  "heuristic hist_abcde hist_abc = 2"
  "heuristic hist_abcde hist_abcd = 1"
  "heuristic hist_abcde hist_abcde = 0"
  by (simp_all add: hist_a_def hist_ay_def hist_ab_def hist_ac_def hist_abc_def hist_abcd_def hist_abcde_def)

lemma ex_key_heuristic [simp]:
  "heuristic hist_x hist_x = 0"
  "heuristic hist_x hist_xc = 1"
  "heuristic hist_x hist_xz = 1"
  "heuristic hist_x hist_xbc = 2"
  "heuristic hist_x hist_xabc = 3"
  "heuristic hist_x hist_xabcz = 4"
  "heuristic hist_x hist_xza = 2"
  "heuristic hist_x hist_xzab = 3"
  "heuristic hist_x hist_xabcde = 5"
  "heuristic hist_xc hist_x = 1"
  "heuristic hist_xc hist_xc = 0"
  "heuristic hist_xc hist_xz = 2"
  "heuristic hist_xc hist_xbc = 1"
  "heuristic hist_xc hist_xabc = 2"
  "heuristic hist_xc hist_xabcz = 3"
  "heuristic hist_xc hist_xza = 3"
  "heuristic hist_xc hist_xzab = 4"
  "heuristic hist_xc hist_xabcde = 4"
  "heuristic hist_xz hist_x = 1"
  "heuristic hist_xz hist_xc = 2"
  "heuristic hist_xz hist_xz = 0"
  "heuristic hist_xz hist_xbc = 3"
  "heuristic hist_xz hist_xabc = 4"
  "heuristic hist_xz hist_xabcz = 3"
  "heuristic hist_xz hist_xza = 1"
  "heuristic hist_xz hist_xzab = 2"
  "heuristic hist_xz hist_xabcde = 6"
  "heuristic hist_xbc hist_x = 2"
  "heuristic hist_xbc hist_xc = 1"
  "heuristic hist_xbc hist_xz = 3"
  "heuristic hist_xbc hist_xbc = 0"
  "heuristic hist_xbc hist_xabc = 1"
  "heuristic hist_xbc hist_xabcz = 2"
  "heuristic hist_xbc hist_xza = 4"
  "heuristic hist_xbc hist_xzab = 3"
  "heuristic hist_xbc hist_xabcde = 3"
  "heuristic hist_xabc hist_x = 3"
  "heuristic hist_xabc hist_xc = 2"
  "heuristic hist_xabc hist_xz = 4"
  "heuristic hist_xabc hist_xbc = 1"
  "heuristic hist_xabc hist_xabc = 0"
  "heuristic hist_xabc hist_xabcz = 1"
  "heuristic hist_xabc hist_xza = 3"
  "heuristic hist_xabc hist_xzab = 2"
  "heuristic hist_xabc hist_xabcde = 2"
  "heuristic hist_xabcz hist_x = 4"
  "heuristic hist_xabcz hist_xc = 3"
  "heuristic hist_xabcz hist_xz = 3"
  "heuristic hist_xabcz hist_xbc = 2"
  "heuristic hist_xabcz hist_xabc = 1"
  "heuristic hist_xabcz hist_xabcz = 0"
  "heuristic hist_xabcz hist_xza = 2"
  "heuristic hist_xabcz hist_xzab = 1"
  "heuristic hist_xabcz hist_xabcde = 3"
  "heuristic hist_xza hist_x = 2"
  "heuristic hist_xza hist_xc = 3"
  "heuristic hist_xza hist_xz = 1"
  "heuristic hist_xza hist_xbc = 4"
  "heuristic hist_xza hist_xabc = 3"
  "heuristic hist_xza hist_xabcz = 2"
  "heuristic hist_xza hist_xza = 0"
  "heuristic hist_xza hist_xzab = 1"
  "heuristic hist_xza hist_xabcde = 5"
  "heuristic hist_xzab hist_x = 3"
  "heuristic hist_xzab hist_xc = 4"
  "heuristic hist_xzab hist_xz = 2"
  "heuristic hist_xzab hist_xbc = 3"
  "heuristic hist_xzab hist_xabc = 2"
  "heuristic hist_xzab hist_xabcz = 1"
  "heuristic hist_xzab hist_xza = 1"
  "heuristic hist_xzab hist_xzab = 0"
  "heuristic hist_xzab hist_xabcde = 4"
  "heuristic hist_xabcde hist_x = 5"
  "heuristic hist_xabcde hist_xc = 4"
  "heuristic hist_xabcde hist_xz = 6"
  "heuristic hist_xabcde hist_xbc = 3"
  "heuristic hist_xabcde hist_xabc = 2"
  "heuristic hist_xabcde hist_xabcz = 3"
  "heuristic hist_xabcde hist_xza = 5"
  "heuristic hist_xabcde hist_xzab = 4"
  "heuristic hist_xabcde hist_xabcde = 0"
  by (simp_all add: hist_x_def hist_xc_def hist_xz_def hist_xbc_def hist_xabc_def hist_xabcz_def hist_xza_def hist_xzab_def hist_xabcde_def)

lemma ex_word_to_histogram [simp]:
  "word_to_histogram ''a'' = Inr hist_a"
  "word_to_histogram ''ab'' = Inr hist_ab"
  "word_to_histogram ''ay'' = Inr hist_ay"
  "word_to_histogram ''cat'' = Inr hist_cat"
  "word_to_histogram ''cats'' = Inr hist_cats"
  "word_to_histogram ''ca'' = Inr hist_ca"
  "word_to_histogram ''tea'' = Inr hist_tea"
  "word_to_histogram ''az'' = Inr hist_az"
  "word_to_histogram ''aw'' = Inr hist_aw"
  "word_to_histogram ''av'' = Inr hist_av"
  "word_to_histogram ''ax'' = Inr hist_ax"
  "word_to_histogram ''abx'' = Inr hist_abx"
  "word_to_histogram ''abcx'' = Inr hist_abcx"
  "word_to_histogram ''abc'' = Inr hist_abc"
  "word_to_histogram ''ac'' = Inr hist_ac"
  "word_to_histogram ''abcd'' = Inr hist_abcd"
  "word_to_histogram ''abcde'' = Inr hist_abcde"
  "word_to_histogram ''x'' = Inr hist_x"
  "word_to_histogram ''xc'' = Inr hist_xc"
  "word_to_histogram ''xz'' = Inr hist_xz"
  "word_to_histogram ''xbc'' = Inr hist_xbc"
  "word_to_histogram ''xabc'' = Inr hist_xabc"
  "word_to_histogram ''xabcz'' = Inr hist_xabcz"
  "word_to_histogram ''xza'' = Inr hist_xza"
  "word_to_histogram ''xzab'' = Inr hist_xzab"
  "word_to_histogram ''xabcde'' = Inr hist_xabcde"
  "word_to_histogram ''act'' = Inr hist_cat"
  "word_to_histogram ''eat'' = Inr hist_tea"
  "word_to_histogram ''ate'' = Inr hist_tea"
  "word_to_histogram ''cast'' = Inr hist_cats"
  by code_simp+


lemma c1_load: "load_wordlist [''a'', ''ab''] = Inr [hist_a, hist_ab]"
  by simp

lemma c1_main: "main [''a'', ''ab''] ''a'' ''ab'' = Some (Inr [''a'', ''ab'', ''ab''])"
  by (simp add: main_def c1_load search_defs BiSearchGraph_search.simps hist_neq)

section \<open>Fusion of the two searches\<close>

lemma intersect_south_none:
  "list_all (\<lambda>n2. \<not> is_same_word nd1 n2) sf \<Longrightarrow> intersect_south nd1 sf = None"
  by (induction sf) auto

lemma intersect_south_first:
  "j < length sf \<Longrightarrow> is_same_word nd1 (sf ! j) \<Longrightarrow>
   list_all (\<lambda>n2. \<not> is_same_word nd1 n2) (take j sf) \<Longrightarrow>
   intersect_south nd1 sf =
     Some (None,
           nd1\<lparr>actions := actions nd1 @ rev (actions (sf ! j)),
               cost_f := cost_f nd1 + cost_f (sf ! j), cost_h := 0,
               cost_total := cost_f nd1 + cost_f (sf ! j)\<rparr>,
           sf[j := (sf ! j)\<lparr>actions := rev (actions (sf ! j))\<rparr>])"
proof (induction sf arbitrary: j)
  case Nil
  then show ?case by simp
next
  case (Cons n2 sf)
  show ?case
  proof (cases j)
    case 0
    with Cons.prems show ?thesis by (simp add: attach_def Let_def)
  next
    case (Suc k)
    with Cons.prems have k: "k < length sf" "is_same_word nd1 (sf ! k)"
      "list_all (\<lambda>n2. \<not> is_same_word nd1 n2) (take k sf)" "\<not> is_same_word nd1 n2"
      by simp_all
    from Cons.IH[OF k(1-3)] k(4) Suc show ?thesis by simp
  qed
qed

lemma intersect_north_first:
  "i < length nf \<Longrightarrow> j < length sf \<Longrightarrow> is_same_word (nf ! i) (sf ! j) \<Longrightarrow>
   list_all (\<lambda>n1. list_all (\<lambda>n2. \<not> is_same_word n1 n2) sf) (take i nf) \<Longrightarrow>
   list_all (\<lambda>n2. \<not> is_same_word (nf ! i) n2) (take j sf) \<Longrightarrow>
   intersect_north nf sf =
     Some (None,
           nf[i := (nf ! i)\<lparr>actions := actions (nf ! i) @ rev (actions (sf ! j)),
               cost_f := cost_f (nf ! i) + cost_f (sf ! j), cost_h := 0,
               cost_total := cost_f (nf ! i) + cost_f (sf ! j)\<rparr>],
           sf[j := (sf ! j)\<lparr>actions := rev (actions (sf ! j))\<rparr>])"
proof (induction nf arbitrary: i)
  case Nil
  then show ?case by simp
next
  case (Cons n1 nf)
  show ?case
  proof (cases i)
    case 0
    with Cons.prems show ?thesis by (simp add: intersect_south_first)
  next
    case (Suc k)
    with Cons.prems have k: "k < length nf" "is_same_word (nf ! k) (sf ! j)"
      "list_all (\<lambda>n1. list_all (\<lambda>n2. \<not> is_same_word n1 n2) sf) (take k nf)"
      "list_all (\<lambda>n2. \<not> is_same_word (nf ! k) n2) (take j sf)"
      "list_all (\<lambda>n2. \<not> is_same_word n1 n2) sf"
      by simp_all
    from Cons.IH[OF k(1) Cons.prems(2) k(2-4)] intersect_south_none[OF k(5)] Suc
    show ?thesis by simp
  qed
qed

text \<open>
  Claim C1, as the code has it. Let the node at position \<open>i\<close> of the north frontier and
  the node at position \<open>j\<close> of the south frontier have equal histograms, and let this be
  the first such pair in the order of the two loops of \<open>intersect\<close>. Then \<open>intersect\<close>
  fuses the two in place: the path of the north node becomes its path followed by the
  reversed path of the south node, with no entry dropped, its cost so far becomes the
  sum of the two costs so far, and its heuristic becomes 0; the path of the south node is
  left reversed; nothing else changes.
\<close>

theorem intersect_fuses_first_pair:
  assumes "i < length (frontier (north A))" and "j < length (frontier (south A))"
    and "is_same_word (frontier (north A) ! i) (frontier (south A) ! j)"
    and "list_all (\<lambda>n1. list_all (\<lambda>n2. \<not> is_same_word n1 n2) (frontier (south A)))
           (take i (frontier (north A)))"
    and "list_all (\<lambda>n2. \<not> is_same_word (frontier (north A) ! i) n2)
           (take j (frontier (south A)))"
  shows "snd (intersect A) =
     A\<lparr>north := (north A)\<lparr>frontier := (frontier (north A))
          [i := (frontier (north A) ! i)
                 \<lparr>actions := actions (frontier (north A) ! i) @ rev (actions (frontier (south A) ! j)),
                  cost_f := cost_f (frontier (north A) ! i) + cost_f (frontier (south A) ! j),
                  cost_h := 0,
                  cost_total := cost_f (frontier (north A) ! i) + cost_f (frontier (south A) ! j)\<rparr>]\<rparr>,
       south := (south A)\<lparr>frontier := (frontier (south A))
          [j := (frontier (south A) ! j)\<lparr>actions := rev (actions (frontier (south A) ! j))\<rparr>]\<rparr>\<rparr>"
  using intersect_north_first[OF assms] by (simp add: intersect_def)

theorem intersect_fuses_first_pair_witness:
  "1 < length (frontier (north c1_pair)) \<and> 0 < length (frontier (south c1_pair))
   \<and> is_same_word (frontier (north c1_pair) ! 1) (frontier (south c1_pair) ! 0)
   \<and> \<not> is_same_word (frontier (north c1_pair) ! 0) (frontier (south c1_pair) ! 0)
   \<and> snd (intersect c1_pair) =
       c1_pair\<lparr>north := (north c1_pair)\<lparr>frontier :=
                  [\<lparr>current_hist = hist_ay, cost_f = 1, cost_h = 2, cost_total = 3, actions = [0, 1]\<rparr>,
                   \<lparr>current_hist = hist_ab, cost_f = 1, cost_h = 0, cost_total = 1, actions = [0, 2, 2]\<rparr>]\<rparr>\<rparr>"
proof -
  have h1: "1 < length (frontier (north c1_pair))" by (simp add: c1_pair_def)
  have h2: "0 < length (frontier (south c1_pair))" by (simp add: c1_pair_def)
  have h3: "is_same_word (frontier (north c1_pair) ! 1) (frontier (south c1_pair) ! 0)"
    by (simp add: c1_pair_def is_same_word_def)
  have h4: "list_all (\<lambda>n1. list_all (\<lambda>n2. \<not> is_same_word n1 n2) (frontier (south c1_pair)))
              (take 1 (frontier (north c1_pair)))"
    by (simp add: c1_pair_def is_same_word_def hist_neq)
  have h5: "list_all (\<lambda>n2. \<not> is_same_word (frontier (north c1_pair) ! 1) n2)
              (take 0 (frontier (south c1_pair)))"
    by simp
  show ?thesis
    using intersect_fuses_first_pair[OF h1 h2 h3 h4 h5] h1 h2 h3 h4
    by (simp add: c1_pair_def)
qed

text \<open>
  On the dictionary \<open>a, ab\<close> with start \<open>a\<close> and target \<open>ab\<close>, after the first north
  step the north frontier holds a node with path \<open>[0, 1]\<close> and the south frontier one
  with path \<open>[1]\<close>, with equal histograms. The check returns no node, and the fused path is
  \<open>[0, 1, 1]\<close>: the meeting entry is there twice. The run prints \<open>a, ab, ab\<close>.
\<close>

theorem fusion_keeps_boundary_entry:
  "BiSearchGraph_init [hist_a, hist_ab] ''a'' ''ab'' = Inr c1_init
   \<and> search_step [hist_a, hist_ab] (north c1_init) = Inr (None, north c1_met)
   \<and> map actions (frontier (north c1_met)) = [[0, 1]]
   \<and> map actions (frontier (south c1_met)) = [[1]]
   \<and> is_same_word (hd (frontier (north c1_met))) (hd (frontier (south c1_met)))
   \<and> fst (intersect c1_met) = None
   \<and> map actions (frontier (north (snd (intersect c1_met)))) = [[0, 1, 1]]
   \<and> main [''a'', ''ab''] ''a'' ''ab'' = Some (Inr [''a'', ''ab'', ''ab''])"
  by (simp add: c1_main c1_init_def c1_met_def search_defs hist_neq)

section \<open>Path length and cost\<close>

lemma path_ok_root: "path_ok (Node_init wl s t)"
  by (simp add: path_ok_def Node_init_def)

lemma path_ok_move: "path_ok n \<Longrightarrow> path_ok (move_to_neighbour th (Node_copy n) h i)"
  by (simp add: path_ok_def move_to_neighbour_def Node_copy_def)

lemma add_successor_frontier:
  "frontier (add_successor g t row i) = frontier g \<or>
   frontier (add_successor g t row i) =
     frontier g @ [move_to_neighbour (target_hist g) (Node_copy t) row i]"
  by (auto simp: add_successor_def Let_def split: option.splits)

lemma add_successor_other [simp]:
  "closed (add_successor g t row i) = closed g"
  "target_hist (add_successor g t row i) = target_hist g"
  by (auto simp: add_successor_def Let_def split: option.splits)

lemma add_successor_ok:
  "path_ok t \<Longrightarrow> list_all path_ok (frontier g) \<Longrightarrow>
   list_all path_ok (frontier (add_successor g t row i))"
  using add_successor_frontier[of g t row i] path_ok_move[of t "target_hist g" row i]
  by auto

lemma search_step_loop_ok:
  "path_ok t \<Longrightarrow> list_all path_ok (frontier g) \<Longrightarrow>
   list_all path_ok (frontier (search_step_loop wl i t g))
   \<and> closed (search_step_loop wl i t g) = closed g"
  by (induction wl arbitrary: i g) (auto simp: add_successor_ok)

lemma search_step_ok:
  assumes "list_all path_ok (frontier g)" "list_all path_ok (closed g)"
    and "search_step wl g = Inr (r, g')"
  shows "list_all path_ok (frontier g') \<and> list_all path_ok (closed g')
         \<and> (case r of None \<Rightarrow> True | Some nd \<Rightarrow> path_ok nd)"
proof -
  have s: "list_all path_ok (sort_key cost_total (frontier g))"
    using assms(1) by (simp add: list_all_iff)
  show ?thesis
  proof (cases "sort_key cost_total (frontier g)")
    case Nil
    with assms(3) show ?thesis by (simp add: search_step_def)
  next
    case (Cons t rest)
    with s have t: "path_ok t" "list_all path_ok rest" by simp_all
    show ?thesis
    proof (cases "cost_h t = 0")
      case True
      with Cons assms t show ?thesis by (auto simp: search_step_def)
    next
      case False
      have "list_all path_ok (frontier (g\<lparr>frontier := rest, closed := closed g @ [t]\<rparr>))"
        using t by simp
      from search_step_loop_ok[OF t(1) this, of wl 0] False Cons assms t
      show ?thesis by (auto simp: search_step_def)
    qed
  qed
qed

lemma attach_length:
  "path_ok n1 \<Longrightarrow> path_ok n2 \<Longrightarrow>
   int (length (actions (fst (snd (attach n1 n2))))) = cost_f (fst (snd (attach n1 n2))) + 2
   \<and> path_ok (snd (snd (attach n1 n2)))"
  by (simp add: attach_def path_ok_def Let_def)

text \<open>
  Claim C8, as the code has it. The root node has a path of length \<open>g + 1\<close>; a successor
  made from a node with such a path has one; a search step on a graph whose frontier
  and closed nodes all have such paths leaves a graph of the same kind, and the solution
  it returns, if any, has such a path. A node fused by \<open>attach\<close> from two nodes with
  such paths has a path of length \<open>g + 2\<close>.
\<close>

theorem path_length_invariant:
  "path_ok (Node_init wordlist sh th)
   \<and> (path_ok n \<longrightarrow> path_ok (move_to_neighbour th (Node_copy n) row i))
   \<and> (list_all path_ok (frontier g) \<and> list_all path_ok (closed g)
        \<and> search_step wordlist g = Inr (r, g')
      \<longrightarrow> list_all path_ok (frontier g') \<and> list_all path_ok (closed g')
          \<and> (case r of None \<Rightarrow> True | Some nd \<Rightarrow> path_ok nd))
   \<and> (path_ok n1 \<and> path_ok n2
      \<longrightarrow> int (length (actions (fst (snd (attach n1 n2)))))
            = cost_f (fst (snd (attach n1 n2))) + 2)"
  using path_ok_root[of wordlist sh th] path_ok_move[of n th row i]
        search_step_ok[of g wordlist r g'] attach_length[of n1 n2]
  by blast

theorem path_length_invariant_witness:
  "path_ok (Node_init [hist_a, hist_ab] hist_a hist_ab)
   \<and> path_ok (hd (frontier (north c1_init)))
   \<and> path_ok (move_to_neighbour hist_ab (Node_copy (hd (frontier (north c1_init)))) hist_ab 1)
   \<and> list_all path_ok (frontier (north c1_init)) \<and> list_all path_ok (closed (north c1_init))
   \<and> search_step [hist_a, hist_ab] (north c1_init) = Inr (None, north c1_met)
   \<and> list_all path_ok (frontier (north c1_met)) \<and> list_all path_ok (closed (north c1_met))
   \<and> path_ok (hd (frontier (north c1_met))) \<and> path_ok (hd (frontier (south c1_met)))
   \<and> int (length (actions (fst (snd (attach (hd (frontier (north c1_met)))
                                             (hd (frontier (south c1_met))))))))
       = cost_f (fst (snd (attach (hd (frontier (north c1_met)))
                                  (hd (frontier (south c1_met)))))) + 2"
proof -
  have s: "search_step [hist_a, hist_ab] (north c1_init) = Inr (None, north c1_met)"
    by (simp add: c1_init_def c1_met_def search_defs hist_neq)
  have a: "list_all path_ok (frontier (north c1_init)) \<and> list_all path_ok (closed (north c1_init))"
    by (simp add: c1_init_def path_ok_def)
  have b: "path_ok (hd (frontier (north c1_init)))" by (simp add: c1_init_def path_ok_def)
  have c: "path_ok (hd (frontier (north c1_met))) \<and> path_ok (hd (frontier (south c1_met)))"
    by (simp add: c1_init_def c1_met_def path_ok_def)
  show ?thesis
    using path_length_invariant[of "[hist_a, hist_ab]" hist_a hist_ab
            "hd (frontier (north c1_init))" hist_ab 1 "north c1_init" None "north c1_met"
            "hd (frontier (north c1_met))" "hd (frontier (south c1_met))"] s a b c
    by simp
qed

text \<open>
  On the dictionary \<open>a, ab\<close> with start \<open>a\<close> and target \<open>ab\<close> the search returns the
  fused node: its path has three entries and its cost so far is 1.
\<close>

theorem fused_solution_path_too_long:
  "map_option (map_sum id fst) (BiSearchGraph_search [hist_a, hist_ab] c1_init)
     = Some (Inr (Some c8_node))
   \<and> length (actions c8_node) = 3 \<and> cost_f c8_node = 1 \<and> \<not> path_ok c8_node"
  by (simp add: c1_init_def c8_node_def path_ok_def search_defs BiSearchGraph_search.simps hist_neq)

section \<open>Words missing from the dictionary\<close>

lemma search_step_single:
  "frontier g = [nd] \<Longrightarrow> \<exists>r. search_step wl g = Inr r"
  by (simp add: search_step_def)

text \<open>
  Claim C4, as the code has it. When the histogram of the start word or of the target
  word equals no row of the dictionary, no error is reported: the lookup gives \<open>-1\<close>,
  both graphs are built, the root node of the graph of the missing word has the path
  \<open>[-1]\<close>, and the search enters its loop, whose first north step runs without error.
\<close>

theorem missing_word_search_starts:
  assumes "word_to_histogram s = Inr sh" and "word_to_histogram t = Inr th"
    and "sh \<notin> set wordlist \<or> th \<notin> set wordlist"
  shows "\<exists>A. BiSearchGraph_init wordlist s t = Inr A
     \<and> map actions (frontier (north A)) = [[hist_to_index wordlist sh]]
     \<and> map actions (frontier (south A)) = [[hist_to_index wordlist th]]
     \<and> (sh \<notin> set wordlist \<longrightarrow> hist_to_index wordlist sh = - 1)
     \<and> (th \<notin> set wordlist \<longrightarrow> hist_to_index wordlist th = - 1)
     \<and> BiSearchGraph_search wordlist A =
         (case search_round wordlist A of
            Inl r \<Rightarrow> Some r
          | Inr A' \<Rightarrow> BiSearchGraph_search wordlist A')
     \<and> (\<exists>r. search_step wordlist (north A) = Inr r)"
proof -
  let ?n = "\<lparr>start_word = s, target_word = t, start_hist = sh, target_hist = th,
             frontier = [Node_init wordlist sh th], closed = [], solution = None\<rparr>"
  let ?s = "\<lparr>start_word = t, target_word = s, start_hist = th, target_hist = sh,
             frontier = [Node_init wordlist th sh], closed = [], solution = None\<rparr>"
  let ?A = "\<lparr>north = ?n, south = ?s, bi_solution = None\<rparr>"
  have i: "BiSearchGraph_init wordlist s t = Inr ?A"
    using assms(1,2) by (simp add: BiSearchGraph_init_def SearchGraph_init_def)
  have m: "(sh \<notin> set wordlist \<longrightarrow> hist_to_index wordlist sh = - 1)
         \<and> (th \<notin> set wordlist \<longrightarrow> hist_to_index wordlist th = - 1)"
    using hist_to_index_loop_missing[of sh wordlist 0] hist_to_index_loop_missing[of th wordlist 0]
    by (simp add: hist_to_index_def)
  have l: "BiSearchGraph_search wordlist ?A =
         (case search_round wordlist ?A of
            Inl r \<Rightarrow> Some r
          | Inr A' \<Rightarrow> BiSearchGraph_search wordlist A')"
    by (subst BiSearchGraph_search.simps) simp
  have st: "\<exists>r. search_step wordlist (north ?A) = Inr r"
    by (rule search_step_single[of _ "Node_init wordlist sh th"]) simp
  show ?thesis
    using i m l st by (intro exI[of _ ?A]) (simp add: Node_init_def)
qed

theorem missing_word_search_starts_witness:
  "word_to_histogram ''ca'' = Inr hist_ca \<and> word_to_histogram ''cat'' = Inr hist_cat
   \<and> hist_ca \<notin> set [hist_cat, hist_cats]
   \<and> BiSearchGraph_init [hist_cat, hist_cats] ''ca'' ''cat'' = Inr c4_init
   \<and> map actions (frontier (north c4_init)) = [[- 1]]
   \<and> hist_to_index [hist_cat, hist_cats] hist_ca = - 1"
proof -
  have h1: "word_to_histogram ''ca'' = Inr hist_ca" by simp
  have h2: "word_to_histogram ''cat'' = Inr hist_cat" by simp
  have h3: "hist_ca \<notin> set [hist_cat, hist_cats] \<or> hist_cat \<notin> set [hist_cat, hist_cats]"
    by (simp add: hist_neq)
  show ?thesis
    using missing_word_search_starts[OF h1 h2 h3]
    by (simp add: c4_init_def search_defs hist_neq)
qed

text \<open>
  On the dictionary \<open>cat, cats\<close> the word \<open>ca\<close> has no row, not even an anagram of
  it. The run with start \<open>ca\<close> and target \<open>cat\<close> reports no error; it searches and
  prints three words, the first of them the last word of the dictionary.
\<close>

theorem missing_word_not_reported:
  "load_wordlist [''cat'', ''cats''] = Inr [hist_cat, hist_cats]
   \<and> word_to_histogram ''ca'' = Inr hist_ca
   \<and> hist_to_index [hist_cat, hist_cats] hist_ca = - 1
   \<and> main [''cat'', ''cats''] ''ca'' ''cat'' = Some (Inr [''cats'', ''cat'', ''cat''])"
  by (simp add: main_def search_defs BiSearchGraph_search.simps hist_neq)

section \<open>Materialising a path\<close>

lemma py_index_self:
  "py_index wl i = Inr row \<Longrightarrow> heuristic row row = 0"
  by (simp add: heuristic_zero_iff)

lemma list_of_moves_loop_nth:
  "list_of_moves_loop words wl g idxs = Inr ms \<Longrightarrow>
   length ms = length idxs \<and>
   (\<forall>k<length idxs. \<exists>row. py_index wl (idxs ! k) = Inr row \<and>
      (if heuristic row (start_hist g) = 0 then ms ! k = start_word g
       else if heuristic row (target_hist g) = 0 then ms ! k = target_word g
       else py_index words (idxs ! k) = Inr (ms ! k)))"
proof (induction idxs arbitrary: ms)
  case Nil
  then show ?case by simp
next
  case (Cons index rest)
  from Cons.prems obtain row where row: "py_index wl index = Inr row"
    by (auto split: sum.splits)
  from Cons.prems row obtain ms' where ms': "list_of_moves_loop words wl g rest = Inr ms'"
    by (auto split: sum.splits if_splits)
  from Cons.prems row ms' obtain w where ms: "ms = w # ms'"
    and w: "if heuristic row (start_hist g) = 0 then w = start_word g
            else if heuristic row (target_hist g) = 0 then w = target_word g
            else py_index words index = Inr w"
    by (auto split: sum.splits if_splits)
  from Cons.IH[OF ms'] have ih: "length ms' = length rest"
    "\<forall>k<length rest. \<exists>row. py_index wl (rest ! k) = Inr row \<and>
      (if heuristic row (start_hist g) = 0 then ms' ! k = start_word g
       else if heuristic row (target_hist g) = 0 then ms' ! k = target_word g
       else py_index words (rest ! k) = Inr (ms' ! k))"
    by simp_all
  have "\<exists>row. py_index wl ((index # rest) ! k) = Inr row \<and>
      (if heuristic row (start_hist g) = 0 then ms ! k = start_word g
       else if heuristic row (target_hist g) = 0 then ms ! k = target_word g
       else py_index words ((index # rest) ! k) = Inr (ms ! k))"
    if "k < length (index # rest)" for k
  proof (cases k)
    case 0
    with row w ms show ?thesis by auto
  next
    case (Suc j)
    with that have "j < length rest" by simp
    with ih(2) have "\<exists>row. py_index wl (rest ! j) = Inr row \<and>
      (if heuristic row (start_hist g) = 0 then ms' ! j = start_word g
       else if heuristic row (target_hist g) = 0 then ms' ! j = target_word g
       else py_index words (rest ! j) = Inr (ms' ! j))"
      by blast
    then show ?thesis unfolding Suc ms by (simp only: nth_Cons_Suc)
  qed
  with ih(1) ms show ?case by simp
qed

lemma list_of_moves_entry:
  assumes "list_of_moves words wl g n = Inr ms" and "k < length (actions n)"
    and "py_index wl (actions n ! k) = Inr row"
    and "length row = length (start_hist g)" and "length row = length (target_hist g)"
  shows "length ms = length (actions n)"
    and "row = start_hist g \<Longrightarrow> ms ! k = start_word g"
    and "row = target_hist g \<Longrightarrow> row \<noteq> start_hist g \<Longrightarrow> ms ! k = target_word g"
    and "row \<noteq> start_hist g \<Longrightarrow> row \<noteq> target_hist g \<Longrightarrow>
         py_index words (actions n ! k) = Inr (ms ! k)"
proof -
  from list_of_moves_loop_nth[OF assms(1)[unfolded list_of_moves_def]] assms(2,3)
  have len: "length ms = length (actions n)"
    and e: "if heuristic row (start_hist g) = 0 then ms ! k = start_word g
            else if heuristic row (target_hist g) = 0 then ms ! k = target_word g
            else py_index words (actions n ! k) = Inr (ms ! k)"
    by auto
  have z1: "heuristic row (start_hist g) = 0 \<longleftrightarrow> row = start_hist g"
    using assms(4) by (rule heuristic_zero_iff)
  have z2: "heuristic row (target_hist g) = 0 \<longleftrightarrow> row = target_hist g"
    using assms(5) by (rule heuristic_zero_iff)
  show "length ms = length (actions n)" by (rule len)
  show "row = start_hist g \<Longrightarrow> ms ! k = start_word g" using e z1 by simp
  show "row = target_hist g \<Longrightarrow> row \<noteq> start_hist g \<Longrightarrow> ms ! k = target_word g"
    using e z1 z2 by simp
  show "row \<noteq> start_hist g \<Longrightarrow> row \<noteq> target_hist g \<Longrightarrow>
         py_index words (actions n ! k) = Inr (ms ! k)"
    using e z1 z2 by simp
qed

text \<open>
  Claim C10, as the code has it. In the words made from a path, each entry whose
  dictionary row equals the histogram of the start word is given as the literal start
  word, whatever its place in the path; each entry whose row equals the histogram of the
  target word and not that of the start word is given as the literal target word; every
  other entry is given in its own dictionary spelling.
\<close>

theorem list_of_moves_entries:
  assumes "list_of_moves words wordlist g n = Inr ms" and "k < length (actions n)"
    and "py_index wordlist (actions n ! k) = Inr row"
    and "length row = length (start_hist g)" and "length row = length (target_hist g)"
  shows "length ms = length (actions n)
     \<and> (row = start_hist g \<longrightarrow> ms ! k = start_word g)
     \<and> (row = target_hist g \<and> row \<noteq> start_hist g \<longrightarrow> ms ! k = target_word g)
     \<and> (row \<noteq> start_hist g \<and> row \<noteq> target_hist g
          \<longrightarrow> py_index words (actions n ! k) = Inr (ms ! k))"
  using list_of_moves_entry[OF assms] by blast

lemma c9_moves:
  "list_of_moves [''cat'', ''cats''] [hist_cat, hist_cats] c9_graph c9_node
     = Inr [''act'', ''cast'', ''cast'']"
  by (simp add: c9_graph_def c9_node_def list_of_moves_def py_index_def)

lemma c9_lengths:
  "length hist_cat = length (start_hist c9_graph)" "length hist_cat = length (target_hist c9_graph)"
  "length hist_cats = length (start_hist c9_graph)" "length hist_cats = length (target_hist c9_graph)"
  by (simp_all add: c9_graph_def hist_cat_def hist_cats_def)

theorem list_of_moves_entries_witness:
  "list_of_moves [''cat'', ''cats''] [hist_cat, hist_cats] c9_graph c9_node
     = Inr [''act'', ''cast'', ''cast'']
   \<and> py_index [hist_cat, hist_cats] (actions c9_node ! 0) = Inr hist_cat
   \<and> hist_cat = start_hist c9_graph
   \<and> [''act'', ''cast'', ''cast''] ! 0 = start_word c9_graph
   \<and> py_index [hist_cat, hist_cats] (actions c9_node ! 1) = Inr hist_cats
   \<and> hist_cats = target_hist c9_graph \<and> hist_cats \<noteq> start_hist c9_graph
   \<and> [''act'', ''cast'', ''cast''] ! 1 = target_word c9_graph
   \<and> py_index [''cat'', ''cats''] (actions c9_node ! 1) = Inr ''cats''"
proof -
  have k0: "0 < length (actions c9_node)" and k1: "1 < length (actions c9_node)"
    by (simp_all add: c9_node_def)
  have r0: "py_index [hist_cat, hist_cats] (actions c9_node ! 0) = Inr hist_cat"
    and r1: "py_index [hist_cat, hist_cats] (actions c9_node ! 1) = Inr hist_cats"
    by (simp_all add: c9_node_def py_index_def)
  show ?thesis
    using list_of_moves_entries[OF c9_moves k0 r0 c9_lengths(1,2)]
          list_of_moves_entries[OF c9_moves k1 r1 c9_lengths(3,4)] c9_moves r0 r1
    by (simp add: c9_graph_def c9_node_def py_index_def hist_neq)
qed

text \<open>
  On the dictionary \<open>tea\<close> with start \<open>eat\<close> and target \<open>ate\<close> the search returns the
  root node with the path \<open>[0]\<close>. The row of its only entry equals the histogram of the
  target word, and the word given for it is \<open>eat\<close>, not the literal target word.
\<close>

theorem target_entry_given_as_start:
  "BiSearchGraph_init [hist_tea] ''eat'' ''ate'' = Inr c10_init
   \<and> map_option (map_sum id (map_option actions \<circ> fst)) (BiSearchGraph_search [hist_tea] c10_init)
       = Some (Inr (Some [0]))
   \<and> py_index [hist_tea] 0 = Inr hist_tea
   \<and> word_to_histogram ''ate'' = Inr hist_tea
   \<and> main [''tea''] ''eat'' ''ate'' = Some (Inr [''eat''])
   \<and> ''eat'' \<noteq> ''ate''"
  by (simp add: main_def c10_init_def search_defs BiSearchGraph_search.simps)

text \<open>
  The first and the last of the words made from a path, by the rows of the first and the
  last path entry.
\<close>

lemma list_of_moves_endpoints:
  assumes "list_of_moves words wordlist g n = Inr ms" and "actions n \<noteq> []"
    and "length (start_hist g) = length (target_hist g)"
  shows "ms \<noteq> []
     \<and> (py_index wordlist (hd (actions n)) = Inr (start_hist g) \<longrightarrow> hd ms = start_word g)
     \<and> (py_index wordlist (last (actions n)) = Inr (target_hist g)
          \<and> target_hist g \<noteq> start_hist g \<longrightarrow> last ms = target_word g)
     \<and> (py_index wordlist (last (actions n)) = Inr (start_hist g) \<longrightarrow> last ms = start_word g)"
proof -
  let ?m = "length (actions n) - 1"
  have len: "length ms = length (actions n)"
    using list_of_moves_loop_nth[OF assms(1)[unfolded list_of_moves_def]] by simp
  with assms(2) have ne: "ms \<noteq> []" by auto
  have k0: "0 < length (actions n)" and km: "?m < length (actions n)"
    using assms(2) by simp_all
  have h: "hd (actions n) = actions n ! 0" "hd ms = ms ! 0"
    using assms(2) ne by (simp_all add: hd_conv_nth)
  have l: "last (actions n) = actions n ! ?m" "last ms = ms ! ?m"
    using assms(2) ne len by (simp_all add: last_conv_nth)
  have a: "hd ms = start_word g" if "py_index wordlist (hd (actions n)) = Inr (start_hist g)"
    using list_of_moves_entry(2)[OF assms(1) k0, of "start_hist g"] that h assms(3) by simp
  have b: "last ms = target_word g"
    if "py_index wordlist (last (actions n)) = Inr (target_hist g)"
      and "target_hist g \<noteq> start_hist g"
    using list_of_moves_entry(3)[OF assms(1) km, of "target_hist g"] that l assms(3) by simp
  have c: "last ms = start_word g" if "py_index wordlist (last (actions n)) = Inr (start_hist g)"
    using list_of_moves_entry(2)[OF assms(1) km, of "start_hist g"] that l assms(3) by simp
  show ?thesis using ne a b c by blast
qed

text \<open>
  On the dictionary \<open>cat\<close> with start \<open>cat\<close> and target \<open>act\<close> the run succeeds and
  prints the single word \<open>cat\<close>: the last word printed is not the literal target word.
\<close>

theorem anagram_target_not_emitted:
  "main [''cat''] ''cat'' ''act'' = Some (Inr [''cat''])
   \<and> last [''cat''] \<noteq> ''act''"
  by (simp add: main_def search_defs BiSearchGraph_search.simps)

section \<open>Runs that show defects\<close>

lemmas numeral_rounds = eval_nat_numeral One_nat_def

text \<open>
  Claim C3 on a failing input. With the dictionary \<open>south_words\<close>, start \<open>a\<close> and target
  \<open>abc\<close> are both words of the dictionary. After four passes of the loop the south
  frontier holds one node, with heuristic 0 and the path \<open>[8, 7, 6, 5, 0]\<close> from the
  target to the start; the north frontier still holds two nodes. In the fifth pass the
  south step returns that node as its solution, and the search ends with \<open>NameError\<close>
  instead of returning the solution with its path reversed.
\<close>

theorem south_solution_raises:
  "load_wordlist south_words = Inr south_wordlist
   \<and> BiSearchGraph_init south_wordlist ''a'' ''abc'' = Inr south_init
   \<and> map_sum id (\<lambda>A. (map actions (frontier (south A)), map cost_h (frontier (south A)),
                        length (frontier (north A))))
        (search_rounds 4 south_wordlist south_init) = Inr ([[8, 7, 6, 5, 0]], [0], 2)
   \<and> BiSearchGraph_search south_wordlist south_init = Some (Inl NameError)
   \<and> main south_words ''a'' ''abc'' = Some (Inl NameError)"
proof -
  have l: "load_wordlist south_words = Inr south_wordlist"
    by (simp add: south_words_def south_wordlist_def)
  have i: "BiSearchGraph_init south_wordlist ''a'' ''abc'' = Inr south_init"
    by (simp add: south_wordlist_def south_init_def search_defs hist_neq)
  have r: "map_sum id (\<lambda>A. (map actions (frontier (south A)), map cost_h (frontier (south A)),
                        length (frontier (north A))))
        (search_rounds 4 south_wordlist south_init) = Inr ([[8, 7, 6, 5, 0]], [0], 2)"
    by (simp add: numeral_rounds south_wordlist_def south_init_def search_defs hist_neq)
  have s: "BiSearchGraph_search south_wordlist south_init = Some (Inl NameError)"
    by (simp add: south_wordlist_def south_init_def search_defs BiSearchGraph_search.simps hist_neq)
  have m: "main south_words ''a'' ''abc'' = Some (Inl NameError)"
    by (simp add: main_def l i s)
  show ?thesis using l i r s m by simp
qed

text \<open>
  The node that a search step takes from the frontier: the sort is stable, so it is
  the first node, in the order of the frontier list, among those of the least total
  cost.
\<close>

lemma sort_key_hd_first_min:
  fixes f :: "'a \<Rightarrow> int"
  assumes "xs \<noteq> []"
  shows "hd (sort_key f xs) = hd (filter (\<lambda>x. f x = Min (f ` set xs)) xs)"
proof -
  let ?s = "sort_key f xs"
  from assms have "?s \<noteq> []" by (metis length_0_conv length_sort)
  then obtain h t where s: "?s = h # t" by (cases ?s) auto
  have srt: "sorted (map f ?s)" by simp
  have hin: "h \<in> set xs" using s by (metis list.set_intros(1) set_sort)
  have le: "f h \<le> f x" if "x \<in> set xs" for x
  proof -
    from that have "x \<in> set ?s" by simp
    with s srt show ?thesis by auto
  qed
  have m: "Min (f ` set xs) = f h"
    using hin le by (intro Min_eqI) auto
  have "filter (\<lambda>x. f x = f h) ?s = filter (\<lambda>x. f x = f h) xs"
    by (rule sort_key_stable)
  then have "filter (\<lambda>x. f x = f h) xs = h # filter (\<lambda>x. f x = f h) t" using s by simp
  then have "hd (filter (\<lambda>x. f x = f h) xs) = h" by simp
  with m s show ?thesis by simp
qed

lemma search_step_pops_first_min:
  assumes "frontier g \<noteq> []"
  shows "\<exists>rest. sort_key cost_total (frontier g) =
           hd (filter (\<lambda>n. cost_total n = Min (cost_total ` set (frontier g))) (frontier g)) # rest"
proof -
  from assms have "sort_key cost_total (frontier g) \<noteq> []" by (metis length_0_conv length_sort)
  then obtain h t where s: "sort_key cost_total (frontier g) = h # t"
    by (cases "sort_key cost_total (frontier g)") auto
  with sort_key_hd_first_min[OF assms, of cost_total] show ?thesis by simp
qed

text \<open>
  Claim C7 on a failing input. With the dictionary \<open>tie_words\<close>, start \<open>a\<close> and target
  \<open>abcde\<close>: after the first pass the north frontier holds the nodes of \<open>ay\<close>, \<open>ab\<close> and
  \<open>ac\<close>, and none of \<open>abc\<close>, which comes in during the second pass. After three passes
  the north frontier holds the node of \<open>abc\<close>, fused twice with cost 6, in front of the
  node of \<open>ay\<close>, with cost 6 as well. The north step of the fourth pass takes the node
  of \<open>abc\<close>, the later of the two. The run prints a path that ends in \<open>abc\<close>.
\<close>

theorem tie_not_broken_by_insertion:
  "load_wordlist tie_words = Inr tie_wordlist
   \<and> BiSearchGraph_init tie_wordlist ''a'' ''abcde'' = Inr tie_init
   \<and> map_sum id (map current_hist \<circ> frontier \<circ> north) (search_rounds 1 tie_wordlist tie_init)
       = Inr [hist_ay, hist_ab, hist_ac]
   \<and> map_sum id (\<lambda>A. (map current_hist (frontier (north A)), map cost_total (frontier (north A)),
                        map_sum id (map_option current_hist \<circ> fst)
                          (search_step tie_wordlist (north A))))
        (search_rounds 3 tie_wordlist tie_init)
       = Inr ([hist_abc, hist_ay], [6, 6], Inr (Some hist_abc))
   \<and> main tie_words ''a'' ''abcde''
       = Some (Inr [''a'', ''ab'', ''abc'', ''abc'', ''abcd'', ''abcde'', ''abcde'', ''abcd'', ''abc''])"
proof -
  have l: "load_wordlist tie_words = Inr tie_wordlist"
    by (simp add: tie_words_def tie_wordlist_def)
  have i: "BiSearchGraph_init tie_wordlist ''a'' ''abcde'' = Inr tie_init"
    by (simp add: tie_wordlist_def tie_init_def search_defs hist_neq)
  have r1: "map_sum id (map current_hist \<circ> frontier \<circ> north) (search_rounds 1 tie_wordlist tie_init)
       = Inr [hist_ay, hist_ab, hist_ac]"
    by (simp add: numeral_rounds tie_wordlist_def tie_init_def search_defs hist_neq)
  have r3: "map_sum id (\<lambda>A. (map current_hist (frontier (north A)), map cost_total (frontier (north A)),
                        map_sum id (map_option current_hist \<circ> fst)
                          (search_step tie_wordlist (north A))))
        (search_rounds 3 tie_wordlist tie_init)
       = Inr ([hist_abc, hist_ay], [6, 6], Inr (Some hist_abc))"
    by (simp add: numeral_rounds tie_wordlist_def tie_init_def search_defs hist_neq)
  have m: "main tie_words ''a'' ''abcde''
       = Some (Inr [''a'', ''ab'', ''abc'', ''abc'', ''abcd'', ''abcde'', ''abcde'', ''abcd'', ''abc''])"
    by (simp add: main_def l i tie_words_def tie_wordlist_def tie_init_def search_defs
          BiSearchGraph_search.simps hist_neq)
  show ?thesis using l i r1 r3 m by simp
qed

text \<open>
  Claim C2 on a failing input. The one-directional search over \<open>key_words\<close> from \<open>x\<close>
  to \<open>xabcde\<close>: after six steps the frontier holds the node of \<open>xza\<close> with cost 7 and
  the node of \<open>xzab\<close> with cost 9, reached over five moves. The seventh step expands
  the node of \<open>xza\<close>; its successor \<open>xzab\<close> is a candidate with cost 7, strictly lower
  than the 9 of the frontier node with the same histogram. After the step the frontier
  still holds the old node with cost 9 and the long path, and not the candidate.
\<close>

theorem lower_cost_candidate_dropped:
  "load_wordlist key_words = Inr key_wordlist
   \<and> SearchGraph_init key_wordlist ''x'' ''xabcde'' = Inr key_init
   \<and> map_sum id (\<lambda>g. (map actions (frontier g), map cost_total (frontier g),
                        map current_hist (frontier g)))
        (search_steps 6 key_wordlist key_init)
       = Inr ([[0, 2, 6], [0, 1, 3, 4, 5, 7]], [7, 9], [hist_xza, hist_xzab])
   \<and> map_sum id (hd \<circ> sort_key cost_total \<circ> frontier) (search_steps 6 key_wordlist key_init)
       = Inr key_popped
   \<and> heuristic hist_xzab (current_hist key_popped) = 1
   \<and> cost_total (move_to_neighbour hist_xabcde (Node_copy key_popped) hist_xzab 7) = 7
   \<and> map_sum id (\<lambda>g. (map actions (frontier g), map cost_total (frontier g),
                        map current_hist (frontier g)))
        (search_steps 7 key_wordlist key_init)
       = Inr ([[0, 1, 3, 4, 5, 7]], [9], [hist_xzab])"
proof -
  have l: "load_wordlist key_words = Inr key_wordlist"
    by (simp add: key_words_def key_wordlist_def)
  have i: "SearchGraph_init key_wordlist ''x'' ''xabcde'' = Inr key_init"
    by (simp add: key_wordlist_def key_init_def search_defs hist_neq)
  have s6: "map_sum id (\<lambda>g. (map actions (frontier g), map cost_total (frontier g),
                        map current_hist (frontier g), hd (sort_key cost_total (frontier g))))
        (search_steps 6 key_wordlist key_init)
       = Inr ([[0, 2, 6], [0, 1, 3, 4, 5, 7]], [7, 9], [hist_xza, hist_xzab], key_popped)"
    by (simp add: numeral_rounds key_wordlist_def key_init_def key_popped_def search_defs hist_neq)
  have c: "heuristic hist_xzab (current_hist key_popped) = 1
       \<and> cost_total (move_to_neighbour hist_xabcde (Node_copy key_popped) hist_xzab 7) = 7"
    by (simp add: key_popped_def move_to_neighbour_def Node_copy_def)
  have s7: "map_sum id (\<lambda>g. (map actions (frontier g), map cost_total (frontier g),
                        map current_hist (frontier g)))
        (search_steps 7 key_wordlist key_init)
       = Inr ([[0, 1, 3, 4, 5, 7]], [9], [hist_xzab])"
    by (simp add: numeral_rounds key_wordlist_def key_init_def search_defs hist_neq)
  have s6a: "map_sum id (\<lambda>g. (map actions (frontier g), map cost_total (frontier g),
                        map current_hist (frontier g)))
        (search_steps 6 key_wordlist key_init)
       = Inr ([[0, 2, 6], [0, 1, 3, 4, 5, 7]], [7, 9], [hist_xza, hist_xzab])"
    and s6b: "map_sum id (hd \<circ> sort_key cost_total \<circ> frontier) (search_steps 6 key_wordlist key_init)
       = Inr key_popped"
    using s6 by (cases "search_steps 6 key_wordlist key_init"; simp)+
  show ?thesis using l i s6a s6b c s7 by simp
qed

section \<open>The first word of a run\<close>

lemma rooted_move: "rooted r n \<Longrightarrow> rooted r (move_to_neighbour th (Node_copy n) h i)"
  by (simp add: rooted_def move_to_neighbour_def Node_copy_def)

lemma add_successor_fields [simp]:
  "start_hist (add_successor g t row i) = start_hist g"
  "start_word (add_successor g t row i) = start_word g"
  by (auto simp: add_successor_def Let_def split: option.splits)

lemma add_successor_rooted:
  "rooted r t \<Longrightarrow> list_all (rooted r) (frontier g) \<Longrightarrow>
   list_all (rooted r) (frontier (add_successor g t row i))"
  using add_successor_frontier[of g t row i] rooted_move[of r t "target_hist g" row i]
  by auto

lemma search_step_loop_rooted:
  "rooted r t \<Longrightarrow> list_all (rooted r) (frontier g) \<Longrightarrow>
   list_all (rooted r) (frontier (search_step_loop wl i t g))
   \<and> start_hist (search_step_loop wl i t g) = start_hist g
   \<and> start_word (search_step_loop wl i t g) = start_word g"
  by (induction wl arbitrary: i g) (auto simp: add_successor_rooted)

lemma search_step_rooted:
  assumes "list_all (rooted r) (frontier g)" and "search_step wl g = Inr (res, g')"
  shows "list_all (rooted r) (frontier g') \<and> start_hist g' = start_hist g
         \<and> start_word g' = start_word g
         \<and> (case res of None \<Rightarrow> True | Some nd \<Rightarrow> rooted r nd)"
proof -
  have s: "list_all (rooted r) (sort_key cost_total (frontier g))"
    using assms(1) by (simp add: list_all_iff)
  show ?thesis
  proof (cases "sort_key cost_total (frontier g)")
    case Nil
    with assms(2) show ?thesis by (simp add: search_step_def)
  next
    case (Cons t rest)
    with s have t: "rooted r t" "list_all (rooted r) rest" by simp_all
    show ?thesis
    proof (cases "cost_h t = 0")
      case True
      with Cons assms t show ?thesis by (auto simp: search_step_def)
    next
      case False
      have "list_all (rooted r) (frontier (g\<lparr>frontier := rest, closed := closed g @ [t]\<rparr>))"
        using t by simp
      from search_step_loop_rooted[OF t(1) this, of wl 0] False Cons assms t
      show ?thesis by (auto simp: search_step_def)
    qed
  qed
qed

lemma intersect_south_rooted:
  "intersect_south nd1 sf = Some (res, nd1', sf') \<Longrightarrow> rooted r nd1 \<Longrightarrow>
   res = None \<and> rooted r nd1'"
proof (induction sf arbitrary: sf')
  case Nil
  then show ?case by simp
next
  case (Cons n2 sf)
  then show ?case
    by (auto simp: attach_def Let_def rooted_def split: if_splits option.splits prod.splits)
qed

lemma intersect_north_rooted:
  "intersect_north nf sf = Some (res, nf', sf') \<Longrightarrow> list_all (rooted r) nf \<Longrightarrow>
   res = None \<and> list_all (rooted r) nf'"
proof (induction nf arbitrary: nf')
  case Nil
  then show ?case by simp
next
  case (Cons n1 nf)
  show ?case
  proof (cases "intersect_south n1 sf")
    case None
    with Cons.prems obtain rest' where
      "intersect_north nf sf = Some (res, rest', sf')" "nf' = n1 # rest'"
      by (auto split: option.splits)
    with Cons.IH[of rest'] Cons.prems(2) show ?thesis by simp
  next
    case (Some x)
    then obtain r1 n1' sf1 where x: "intersect_south n1 sf = Some (r1, n1', sf1)"
      by (cases x) auto
    with Cons.prems have "res = r1" "nf' = n1' # nf" by simp_all
    with intersect_south_rooted[OF x, of r] Cons.prems(2) show ?thesis by simp
  qed
qed

lemma intersect_rooted:
  assumes "list_all (rooted r) (frontier (north A))"
  shows "fst (intersect A) = None
     \<and> list_all (rooted r) (frontier (north (snd (intersect A))))
     \<and> start_hist (north (snd (intersect A))) = start_hist (north A)
     \<and> start_word (north (snd (intersect A))) = start_word (north A)"
proof (cases "intersect_north (frontier (north A)) (frontier (south A))")
  case None
  with assms show ?thesis by (simp add: intersect_def)
next
  case (Some x)
  then obtain res nf sf where
    x: "intersect_north (frontier (north A)) (frontier (south A)) = Some (res, nf, sf)"
    by (cases x) auto
  from intersect_north_rooted[OF x assms] x show ?thesis by (simp add: intersect_def)
qed

lemma search_round_rooted:
  assumes inv: "list_all (rooted r) (frontier (north A))"
  shows "(search_round wl A = Inr A' \<longrightarrow>
            list_all (rooted r) (frontier (north A'))
            \<and> start_hist (north A') = start_hist (north A)
            \<and> start_word (north A') = start_word (north A))
       \<and> (search_round wl A = Inl (Inr (Some nd, A')) \<longrightarrow>
            rooted r nd
            \<and> start_hist (north A') = start_hist (north A)
            \<and> start_word (north A') = start_word (north A))"
proof (cases "search_step wl (north A)")
  case (Inl e)
  then show ?thesis by (simp add: search_round_def)
next
  case (Inr p)
  then obtain res n' where n: "search_step wl (north A) = Inr (res, n')" by (cases p) auto
  from search_step_rooted[OF inv n] have
    n': "list_all (rooted r) (frontier n')" "start_hist n' = start_hist (north A)"
        "start_word n' = start_word (north A)"
    and res: "case res of None \<Rightarrow> True | Some nd \<Rightarrow> rooted r nd"
    by simp_all
  show ?thesis
  proof (cases res)
    case (Some nd0)
    with n res show ?thesis using n' by (auto simp: search_round_def)
  next
    case None
    obtain x1 A1 where e1: "intersect (A\<lparr>north := n'\<rparr>) = (x1, A1)"
      by (cases "intersect (A\<lparr>north := n'\<rparr>)") auto
    from intersect_rooted[of r "A\<lparr>north := n'\<rparr>"] n' e1 have
      i1: "x1 = None" "list_all (rooted r) (frontier (north A1))"
          "start_hist (north A1) = start_hist (north A)"
          "start_word (north A1) = start_word (north A)"
      by simp_all
    show ?thesis
    proof (cases "search_step wl (south A1)")
      case (Inl e)
      with n None e1 i1(1) show ?thesis by (simp add: search_round_def)
    next
      case (Inr q)
      then obtain res2 s' where s: "search_step wl (south A1) = Inr (res2, s')"
        by (cases q) auto
      show ?thesis
      proof (cases res2)
        case (Some nd2)
        with n None e1 i1(1) s show ?thesis by (simp add: search_round_def)
      next
        case None2: None
        obtain x2 A2 where e2: "intersect (A1\<lparr>south := s'\<rparr>) = (x2, A2)"
          by (cases "intersect (A1\<lparr>south := s'\<rparr>)") auto
        from intersect_rooted[of r "A1\<lparr>south := s'\<rparr>"] i1 e2 have
          i2: "x2 = None" "list_all (rooted r) (frontier (north A2))"
              "start_hist (north A2) = start_hist (north A)"
              "start_word (north A2) = start_word (north A)"
          by simp_all
        have "search_round wl A = Inr A2"
          using n None e1 i1(1) s None2 e2 i2(1) by (simp add: search_round_def)
        with i2 show ?thesis by auto
      qed
    qed
  qed
qed

lemma BiSearchGraph_search_rooted:
  assumes "BiSearchGraph_search wl A = Some res"
  shows "list_all (rooted r) (frontier (north A)) \<longrightarrow>
   (\<forall>nd A'. res = Inr (Some nd, A') \<longrightarrow>
      rooted r nd \<and> start_hist (north A') = start_hist (north A)
      \<and> start_word (north A') = start_word (north A))"
  using assms
proof (induction wl A res rule: BiSearchGraph_search.raw_induct[rotated 1, consumes 1])
  case (1 f wl A res)
  show ?case
  proof (intro impI allI)
    fix nd A'
    assume inv: "list_all (rooted r) (frontier (north A))" and r: "res = Inr (Some nd, A')"
    show "rooted r nd \<and> start_hist (north A') = start_hist (north A)
          \<and> start_word (north A') = start_word (north A)"
    proof (cases "0 < length (frontier (north A)) \<and> 0 < length (frontier (south A))")
      case False
      with 1(2) r show ?thesis by (auto split: if_splits)
    next
      case True
      show ?thesis
      proof (cases "search_round wl A")
        case (Inl x)
        with True 1(2) r have "search_round wl A = Inl (Inr (Some nd, A'))" by simp
        with search_round_rooted[OF inv, of wl A' nd] show ?thesis by simp
      next
        case (Inr A1)
        with True 1(2) have s: "f wl A1 = Some res" by simp
        from search_round_rooted[OF inv, of wl A1 nd] Inr have
          a1: "list_all (rooted r) (frontier (north A1))"
              "start_hist (north A1) = start_hist (north A)"
              "start_word (north A1) = start_word (north A)"
          by simp_all
        from 1(1)[OF s] a1 r show ?thesis by simp
      qed
    qed
  qed
qed

lemma list_of_moves_rooted:
  assumes "list_of_moves words wl g n = Inr ms" and "rooted r n"
    and "py_index wl r = Inr (start_hist g)"
  shows "ms \<noteq> [] \<and> hd ms = start_word g"
proof -
  from assms(2) obtain rest where a: "actions n = r # rest"
    by (cases "actions n") (auto simp: rooted_def)
  have z: "heuristic (start_hist g) (start_hist g) = 0" by (simp add: heuristic_zero_iff)
  from assms(1,3) a z show ?thesis
    by (auto simp: list_of_moves_def split: sum.splits)
qed

lemma hist_to_index_row:
  assumes "h \<in> set wl" shows "py_index wl (hist_to_index wl h) = Inr h"
proof -
  from hist_to_index_loop_found[OF assms, of 0] obtain i where
    "i < length wl" "hist_to_index wl h = int i" "wl ! i = h"
    by (auto simp: hist_to_index_def)
  then show ?thesis by (simp add: py_index_def)
qed

lemma main_first_word:
  assumes "main words s t = Some (Inr ms)" and "load_wordlist words = Inr wl"
    and "word_to_histogram s = Inr sh" and "sh \<in> set wl"
  shows "ms \<noteq> [] \<and> hd ms = s"
proof -
  from assms(1,2,3) obtain th where th: "word_to_histogram t = Inr th"
    by (cases "word_to_histogram t")
       (auto simp: main_def BiSearchGraph_init_def SearchGraph_init_def)
  let ?r = "hist_to_index wl sh"
  let ?A = "\<lparr>north = \<lparr>start_word = s, target_word = t, start_hist = sh, target_hist = th,
                        frontier = [Node_init wl sh th], closed = [], solution = None\<rparr>,
              south = \<lparr>start_word = t, target_word = s, start_hist = th, target_hist = sh,
                        frontier = [Node_init wl th sh], closed = [], solution = None\<rparr>,
              bi_solution = None\<rparr>"
  have i: "BiSearchGraph_init wl s t = Inr ?A"
    using assms(3) th by (simp add: BiSearchGraph_init_def SearchGraph_init_def)
  have inv: "list_all (rooted ?r) (frontier (north ?A))"
    by (simp add: rooted_def Node_init_def)
  from assms(1,2) i obtain nd A' where
    s: "BiSearchGraph_search wl ?A = Some (Inr (Some nd, A'))"
    and m: "list_of_moves words wl (north A') nd = Inr ms"
    by (auto simp: main_def split: option.splits sum.splits)
  from BiSearchGraph_search_rooted[OF s, of ?r] inv have
    nd: "rooted ?r nd" "start_hist (north A') = sh" "start_word (north A') = s"
    by simp_all
  have "py_index wl ?r = Inr (start_hist (north A'))"
    using hist_to_index_row[OF assms(4)] nd(2) by simp
  from list_of_moves_rooted[OF m nd(1) this] nd(3) show ?thesis by simp
qed

text \<open>
  Claim C9, as the code has it. In the words printed by a successful run, the first word
  is the literal start word whenever the histogram of the start word is a row of the
  dictionary. In the words made from a solution path, the last word is the literal
  target word when the row of the last path entry equals the histogram of the target
  word and this differs from the histogram of the start word; when the row of the last
  entry equals the histogram of the start word, the last word is the literal start word.
\<close>

theorem endpoint_words:
  "(main words s t = Some (Inr ms) \<and> load_wordlist words = Inr wordlist
      \<and> word_to_histogram s = Inr sh \<and> sh \<in> set wordlist
    \<longrightarrow> ms \<noteq> [] \<and> hd ms = s)
   \<and> (list_of_moves words wordlist g n = Inr ms' \<and> actions n \<noteq> []
      \<and> length (start_hist g) = length (target_hist g)
    \<longrightarrow> (py_index wordlist (last (actions n)) = Inr (target_hist g)
            \<and> target_hist g \<noteq> start_hist g \<longrightarrow> last ms' = target_word g)
        \<and> (py_index wordlist (last (actions n)) = Inr (start_hist g)
            \<longrightarrow> last ms' = start_word g))"
  using main_first_word[of words s t ms wordlist sh]
        list_of_moves_endpoints[of words wordlist g n ms']
  by blast

theorem endpoint_words_witness:
  "main [''cat'', ''cats''] ''act'' ''cast'' = Some (Inr [''act'', ''cast'', ''cast''])
   \<and> load_wordlist [''cat'', ''cats''] = Inr [hist_cat, hist_cats]
   \<and> word_to_histogram ''act'' = Inr hist_cat \<and> hist_cat \<in> set [hist_cat, hist_cats]
   \<and> hd [''act'', ''cast'', ''cast''] = ''act''
   \<and> list_of_moves [''cat'', ''cats''] [hist_cat, hist_cats] c9_graph c9_node
       = Inr [''act'', ''cast'', ''cast'']
   \<and> actions c9_node \<noteq> []
   \<and> length (start_hist c9_graph) = length (target_hist c9_graph)
   \<and> py_index [hist_cat, hist_cats] (last (actions c9_node)) = Inr (target_hist c9_graph)
   \<and> target_hist c9_graph \<noteq> start_hist c9_graph
   \<and> last [''act'', ''cast'', ''cast''] = target_word c9_graph"
proof -
  have ne: "actions c9_node \<noteq> []" by (simp add: c9_node_def)
  have le: "length (start_hist c9_graph) = length (target_hist c9_graph)"
    by (simp add: c9_graph_def hist_cat_def hist_cats_def)
  have m: "main [''cat'', ''cats''] ''act'' ''cast'' = Some (Inr [''act'', ''cast'', ''cast''])"
    by (simp add: main_def search_defs BiSearchGraph_search.simps hist_neq)
  have l: "load_wordlist [''cat'', ''cats''] = Inr [hist_cat, hist_cats]" by simp
  have w: "word_to_histogram ''act'' = Inr hist_cat" by simp
  have i: "hist_cat \<in> set [hist_cat, hist_cats]" by simp
  show ?thesis
    using endpoint_words[of "[''cat'', ''cats'']" "''act''" "''cast''"
            "[''act'', ''cast'', ''cast'']" "[hist_cat, hist_cats]" hist_cat
            c9_graph c9_node "[''act'', ''cast'', ''cast'']"] m l w i c9_moves ne le
    by (simp add: c9_graph_def c9_node_def py_index_def hist_neq)
qed


end
